theory Spec2Isabelle
  imports Main "HOL-Library.Sublist"
begin

section \<open>Text primitives\<close>

text \<open>
  The scripts work on Python \<^verbatim>\<open>str\<close> values. Text is modelled as \<^typ>\<open>string\<close> and read as
  ASCII: on ASCII text \<^verbatim>\<open>str.lower\<close>, \<^verbatim>\<open>str.strip\<close> and the classes \<^verbatim>\<open>\d\<close>,
  \<^verbatim>\<open>\s\<close>, \<^verbatim>\<open>\w\<close> of the \<^verbatim>\<open>re\<close> module are exactly the functions below. Characters
  outside ASCII (where Python consults the Unicode tables) are outside the model.
  Python integers are unbounded (\<^typ>\<open>int\<close>); the interpreter's optional cap on the number
  of digits that \<^verbatim>\<open>int()\<close> converts is not modelled.
\<close>

datatype py_error = TypeError | ValueError | AttributeError

definition digits :: string where
  "digits = ''0123456789''"

definition uppers :: string where
  "uppers = ''ABCDEFGHIJKLMNOPQRSTUVWXYZ''"

definition lowers :: string where
  "lowers = ''abcdefghijklmnopqrstuvwxyz''"

definition is_digit :: "char \<Rightarrow> bool" where
  "is_digit c = (c \<in> set digits)"

definition is_upper :: "char \<Rightarrow> bool" where
  "is_upper c = (c \<in> set uppers)"

definition is_lower :: "char \<Rightarrow> bool" where
  "is_lower c = (c \<in> set lowers)"

text \<open>\<^verbatim>\<open>str.isspace\<close> on ASCII: tab, LF, VT, FF, CR, the separators 0x1C..0x1F and space.\<close>

definition is_space :: "char \<Rightarrow> bool" where
  "is_space c = (c \<in> set [CHR 0x09, CHR 0x0A, CHR 0x0B, CHR 0x0C, CHR 0x0D,
                            CHR 0x1C, CHR 0x1D, CHR 0x1E, CHR 0x1F, CHR 0x20])"

text \<open>The class \<^verbatim>\<open>\w\<close>: letters, digits and the underscore.\<close>

definition is_word :: "char \<Rightarrow> bool" where
  "is_word c = (is_digit c \<or> is_upper c \<or> is_lower c \<or> c = CHR ''_'')"

definition lower_char :: "char \<Rightarrow> char" where
  "lower_char c = (case map_of (zip uppers lowers) c of Some l \<Rightarrow> l | None \<Rightarrow> c)"

text \<open>\<^verbatim>\<open>s.lower()\<close>\<close>

definition lower :: "string \<Rightarrow> string" where
  "lower s = map lower_char s"

text \<open>\<^verbatim>\<open>s.startswith(p)\<close>\<close>

fun startswith :: "string \<Rightarrow> string \<Rightarrow> bool" where
  "startswith s [] = True"
| "startswith [] (p # ps) = False"
| "startswith (c # s) (p # ps) = (c = p \<and> startswith s ps)"

text \<open>\<^verbatim>\<open>needle in haystack\<close> on two strings: substring containment.\<close>

fun py_in :: "string \<Rightarrow> string \<Rightarrow> bool" where
  "py_in n [] = (n = [])"
| "py_in n (c # h) = (startswith (c # h) n \<or> py_in n h)"

text \<open>\<^verbatim>\<open>s.strip()\<close>: whitespace removed at both ends.\<close>

definition strip :: "string \<Rightarrow> string" where
  "strip s = rev (dropWhile is_space (rev (dropWhile is_space s)))"

text \<open>\<^verbatim>\<open>s.split('#')[0]\<close>: the text before the first \<^verbatim>\<open>#\<close>.\<close>

definition before_hash :: "string \<Rightarrow> string" where
  "before_hash s = takeWhile (\<lambda>c. c \<noteq> CHR ''#'') s"

definition digit_val :: "char \<Rightarrow> int" where
  "digit_val c = (case map_of (zip digits [0, 1, 2, 3, 4, 5, 6, 7, 8, 9]) c of
                    Some v \<Rightarrow> v | None \<Rightarrow> 0)"

text \<open>The value of a string of decimal digits, most significant first.\<close>

definition digits_val :: "string \<Rightarrow> int" where
  "digits_val s = foldl (\<lambda>a c. 10 * a + digit_val c) 0 s"

text \<open>
  \<^verbatim>\<open>int(s)\<close> on a string: surrounding whitespace (tab, LF, VT, FF, CR and space; not the
  separators 0x1C..0x1F) and one sign are allowed, single underscores may separate digits;
  anything else raises \<^verbatim>\<open>ValueError\<close>.
\<close>

definition is_int_space :: "char \<Rightarrow> bool" where
  "is_int_space c = (c \<in> set [CHR 0x09, CHR 0x0A, CHR 0x0B, CHR 0x0C, CHR 0x0D, CHR 0x20])"

fun int_body_ok :: "bool \<Rightarrow> string \<Rightarrow> bool" where
  "int_body_ok after_digit [] = after_digit"
| "int_body_ok after_digit (c # s) =
     (if is_digit c then int_body_ok True s
      else if c = CHR ''_'' \<and> after_digit then int_body_ok False s
      else False)"

definition py_int :: "string \<Rightarrow> py_error + int" where
  "py_int s =
     (let t = rev (dropWhile is_int_space (rev (dropWhile is_int_space s)));
          neg = (t \<noteq> [] \<and> hd t = CHR ''-'');
          body = (if t \<noteq> [] \<and> (hd t = CHR ''-'' \<or> hd t = CHR ''+'') then tl t else t)
      in if int_body_ok False body
         then (let v = digits_val (filter is_digit body) in Inr (if neg then - v else v))
         else Inl ValueError)"

text \<open>\<^verbatim>\<open>int(x)\<close> where \<^verbatim>\<open>x\<close> may be \<^verbatim>\<open>None\<close> (a group that did not take part in the match).\<close>

definition py_int_opt :: "string option \<Rightarrow> py_error + int" where
  "py_int_opt x = (case x of None \<Rightarrow> Inl TypeError | Some s \<Rightarrow> py_int s)"

section \<open>The regular expressions of the scripts\<close>

text \<open>
  The subset of \<^verbatim>\<open>re\<close> syntax the scripts use, with the backtracking order of the
  Python matcher: alternatives left to right, quantifiers greedy. Every quantifier with a
  repetition count in the scripts sits on a single character class, which is what
  \<open>Rep\<close> offers (\<open>Rep c m None\<close> is \<^verbatim>\<open>c{m,}\<close>, \<open>Rep c m (Some n)\<close> is \<^verbatim>\<open>c{m,n}\<close>).
\<close>

datatype cset = Lit char | Digit | Space | Upper | Lower | OneOf "cset list"

datatype regex =
    Ch cset
  | Rep cset nat "nat option"
  | Str string
  | Opt regex
  | Alt regex regex
  | Cat regex regex
  | Grp nat regex
  | Bnd

text \<open>Membership in a character class; the flag is \<^verbatim>\<open>re.IGNORECASE\<close>.\<close>

fun in_cset :: "bool \<Rightarrow> cset \<Rightarrow> char \<Rightarrow> bool" where
  "in_cset ic (Lit a) c = (if ic then lower_char c = lower_char a else c = a)"
| "in_cset ic Digit c = is_digit c"
| "in_cset ic Space c = is_space c"
| "in_cset ic Upper c = (is_upper c \<or> (ic \<and> is_lower c))"
| "in_cset ic Lower c = (is_lower c \<or> (ic \<and> is_upper c))"
| "in_cset ic (OneOf cs) c = list_ex (\<lambda>k. in_cset ic k c) cs"

text \<open>
  A matcher state: the character before the current position (for \<^verbatim>\<open>\b\<close>), the text
  still to be read, and the groups captured so far, most recent first.
\<close>

record mstate =
  prev :: "char option"
  rest :: string
  caps :: "(nat \<times> string) list"

text \<open>Greedy repetition of a class: one more character first, stopping here second.\<close>

fun rep :: "(char \<Rightarrow> bool) \<Rightarrow> nat \<Rightarrow> nat \<Rightarrow> nat option \<Rightarrow> char option \<Rightarrow> string
    \<Rightarrow> (nat \<times> string) list \<Rightarrow> mstate list" where
  "rep p k lo hi pv [] cp = (if lo \<le> k then [\<lparr>prev = pv, rest = [], caps = cp\<rparr>] else [])"
| "rep p k lo hi pv (c # s) cp =
     (if p c \<and> (case hi of None \<Rightarrow> True | Some h \<Rightarrow> k < h)
      then rep p (Suc k) lo hi (Some c) s cp else [])
     @ (if lo \<le> k then [\<lparr>prev = pv, rest = c # s, caps = cp\<rparr>] else [])"

text \<open>A literal string, character by character.\<close>

fun lit :: "bool \<Rightarrow> string \<Rightarrow> char option \<Rightarrow> string \<Rightarrow> (char option \<times> string) option" where
  "lit ic [] pv s = Some (pv, s)"
| "lit ic (a # as) pv [] = None"
| "lit ic (a # as) pv (c # s) = (if in_cset ic (Lit a) c then lit ic as (Some c) s else None)"

definition word_at :: "char option \<Rightarrow> bool" where
  "word_at x = (case x of None \<Rightarrow> False | Some c \<Rightarrow> is_word c)"

text \<open>
  All the ways a pattern matches at the current position, in the order in which the
  backtracking matcher tries them. The head of the list is the match Python reports.
\<close>

fun rmatch :: "bool \<Rightarrow> regex \<Rightarrow> mstate \<Rightarrow> mstate list" where
  "rmatch ic (Ch cs) st =
     (case rest st of [] \<Rightarrow> []
      | c # s \<Rightarrow> if in_cset ic cs c then [st\<lparr>prev := Some c, rest := s\<rparr>] else [])"
| "rmatch ic (Rep cs lo hi) st = rep (in_cset ic cs) 0 lo hi (prev st) (rest st) (caps st)"
| "rmatch ic (Str w) st =
     (case lit ic w (prev st) (rest st) of None \<Rightarrow> []
      | Some (pv, s) \<Rightarrow> [st\<lparr>prev := pv, rest := s\<rparr>])"
| "rmatch ic (Opt r) st = rmatch ic r st @ [st]"
| "rmatch ic (Alt r1 r2) st = rmatch ic r1 st @ rmatch ic r2 st"
| "rmatch ic (Cat r1 r2) st = concat (map (rmatch ic r2) (rmatch ic r1 st))"
| "rmatch ic (Grp i r) st =
     map (\<lambda>st'. st'\<lparr>caps := (i, take (length (rest st) - length (rest st')) (rest st)) # caps st'\<rparr>)
       (rmatch ic r st)"
| "rmatch ic Bnd st =
     (if word_at (prev st) \<noteq> word_at (case rest st of [] \<Rightarrow> None | c # _ \<Rightarrow> Some c)
      then [st] else [])"

text \<open>The number of capturing groups of a pattern: \<^verbatim>\<open>len(match.groups())\<close>.\<close>

fun ngroups :: "regex \<Rightarrow> nat" where
  "ngroups (Opt r) = ngroups r"
| "ngroups (Alt r1 r2) = ngroups r1 + ngroups r2"
| "ngroups (Cat r1 r2) = ngroups r1 + ngroups r2"
| "ngroups (Grp i r) = Suc (ngroups r)"
| "ngroups r = 0"

text \<open>A match object: \<^verbatim>\<open>m.start()\<close>, \<^verbatim>\<open>m.group(0)\<close> and the captured groups.\<close>

record match =
  m_start :: nat
  m_text :: string
  m_caps :: "(nat \<times> string) list"

text \<open>\<^verbatim>\<open>m.group(i)\<close> for \<open>i \<ge> 1\<close>: \<open>None\<close> when the group took no part in the match.\<close>

definition group :: "match \<Rightarrow> nat \<Rightarrow> string option" where
  "group m i = map_of (m_caps m) i"

text \<open>\<^verbatim>\<open>re.search\<close>: the first match at the leftmost position that has one.\<close>

fun search_from :: "bool \<Rightarrow> regex \<Rightarrow> char option \<Rightarrow> string \<Rightarrow> nat \<Rightarrow> match option" where
  "search_from ic r pv [] i =
     (case rmatch ic r \<lparr>prev = pv, rest = [], caps = []\<rparr> of
        [] \<Rightarrow> None
      | st # _ \<Rightarrow> Some \<lparr>m_start = i, m_text = [], m_caps = caps st\<rparr>)"
| "search_from ic r pv (c # s) i =
     (case rmatch ic r \<lparr>prev = pv, rest = c # s, caps = []\<rparr> of
        [] \<Rightarrow> search_from ic r (Some c) s (Suc i)
      | st # _ \<Rightarrow> Some \<lparr>m_start = i,
                        m_text = take (length (c # s) - length (rest st)) (c # s),
                        m_caps = caps st\<rparr>)"

definition re_search :: "bool \<Rightarrow> regex \<Rightarrow> string \<Rightarrow> match option" where
  "re_search ic r s = search_from ic r None s 0"

text \<open>
  \<^verbatim>\<open>re.finditer\<close>: the matches from left to right, each search resuming where the
  previous match ended (\<open>k\<close> counts the characters still covered by it). The patterns
  iterated in the scripts match at least four characters; a pattern matching the empty
  string is reported once per position here.
\<close>

fun finditer_from :: "bool \<Rightarrow> regex \<Rightarrow> char option \<Rightarrow> string \<Rightarrow> nat \<Rightarrow> nat \<Rightarrow> match list" where
  "finditer_from ic r pv [] i k = []"
| "finditer_from ic r pv (c # s) i k =
     (if 0 < k then finditer_from ic r (Some c) s (Suc i) (k - 1)
      else case rmatch ic r \<lparr>prev = pv, rest = c # s, caps = []\<rparr> of
        [] \<Rightarrow> finditer_from ic r (Some c) s (Suc i) 0
      | st # _ \<Rightarrow>
          \<lparr>m_start = i, m_text = take (length (c # s) - length (rest st)) (c # s), m_caps = caps st\<rparr>
          # finditer_from ic r (Some c) s (Suc i) (length (c # s) - length (rest st) - 1))"

definition re_finditer :: "bool \<Rightarrow> regex \<Rightarrow> string \<Rightarrow> match list" where
  "re_finditer ic r s = finditer_from ic r None s 0 0"

text \<open>Shorthands for reading patterns: \<^verbatim>\<open>\s*\<close>, \<^verbatim>\<open>\s+\<close>, \<^verbatim>\<open>\d+\<close>, \<^verbatim>\<open>\$?\<close> and sequences.\<close>

definition spaces0 :: regex where
  "spaces0 = Rep Space 0 None"

definition spaces1 :: regex where
  "spaces1 = Rep Space 1 None"

definition digits1 :: regex where
  "digits1 = Rep Digit 1 None"

definition dollar_opt :: regex where
  "dollar_opt = Opt (Ch (Lit CHR ''$''))"

fun cats :: "regex list \<Rightarrow> regex" where
  "cats [] = Str []"
| "cats [r] = r"
| "cats (r # rs) = Cat r (cats rs)"

section \<open>The query parser (parse\_vehicle\_query.py)\<close>

text \<open>
  The part of the filter catalog that \<^verbatim>\<open>parse_with_patterns\<close> reads: the lists under
  \<^verbatim>\<open>global_filters\<close>. A key that is missing reads as the empty list, as
  \<^verbatim>\<open>.get(key, [])\<close> does.
\<close>

record global_filters =
  exterior_colors :: "string list"
  body_types :: "string list"
  drivetrains :: "string list"
  fuel_types :: "string list"
  feature_names :: "string list"

record location =
  loc_zip :: "string option"
  loc_distance :: "int option"
  loc_city :: "string option"
  loc_state :: "string option"

record structured =
  makes :: "string list"
  models :: "string list"
  trims :: "string list"
  year :: "int option"
  yearMin :: "int option"
  yearMax :: "int option"
  minPrice :: "int option"
  maxPrice :: "int option"
  drivetrain :: "string option"
  fuelType :: "string option"
  bodyType :: "string option"
  transmission :: "string option"
  doors :: "int option"
  cylinders :: "int option"
  exteriorColor :: "string option"
  interiorColor :: "string option"
  features :: "string list"
  location :: location

record parsed =
  query :: string
  structured :: structured

text \<open>The seven price patterns, in the order of the list \<^verbatim>\<open>price_patterns\<close>.\<close>

definition price_patterns :: "regex list" where
  "price_patterns =
    [cats [Str ''under'', spaces0, dollar_opt, Grp 1 digits1],
     cats [Str ''below'', spaces0, dollar_opt, Grp 1 digits1],
     cats [Str ''less than'', spaces0, dollar_opt, Grp 1 digits1],
     cats [Str ''max'', spaces0, dollar_opt, Grp 1 digits1],
     cats [dollar_opt, Grp 1 digits1, spaces0, Str ''-'', spaces0, dollar_opt, Grp 2 digits1],
     cats [Str ''between'', spaces0, dollar_opt, Grp 1 digits1, spaces0, Str ''and'', spaces0,
           dollar_opt, Grp 2 digits1],
     cats [Str ''up to'', spaces0, dollar_opt, Grp 1 digits1]]"

text \<open>Python truthiness of \<^verbatim>\<open>m.group(i)\<close>: a group that is present and not empty.\<close>

definition truthy_group :: "string option \<Rightarrow> bool" where
  "truthy_group g = (case g of None \<Rightarrow> False | Some s \<Rightarrow> s \<noteq> [])"

text \<open>
  The loop over \<^verbatim>\<open>price_patterns\<close>: the first pattern that matches sets the prices and
  ends the loop. The result is the pair \<open>(minPrice, maxPrice)\<close>.
\<close>

fun extract_price :: "regex list \<Rightarrow> string \<Rightarrow> py_error + (int option \<times> int option)" where
  "extract_price [] ql = Inr (None, None)"
| "extract_price (p # ps) ql =
     (case re_search False p ql of
        None \<Rightarrow> extract_price ps ql
      | Some m \<Rightarrow>
          if ngroups p = 2 \<and> truthy_group (group m 2)
          then (case py_int_opt (group m 1) of
                  Inl e \<Rightarrow> Inl e
                | Inr a \<Rightarrow> (case py_int_opt (group m 2) of
                             Inl e \<Rightarrow> Inl e
                           | Inr b \<Rightarrow> Inr (Some a, Some b)))
          else (case py_int_opt (group m 1) of
                  Inl e \<Rightarrow> Inl e
                | Inr b \<Rightarrow> Inr (None, Some b)))"

text \<open>\<^verbatim>\<open>\b(20\d{2})\b\<close>, searched in the query as typed.\<close>

definition year_pattern :: regex where
  "year_pattern = cats [Bnd, Grp 1 (Cat (Str ''20'') (Rep Digit 2 (Some 2))), Bnd]"

definition extract_year :: "string \<Rightarrow> py_error + int option" where
  "extract_year q =
     (case re_search False year_pattern q of
        None \<Rightarrow> Inr None
      | Some m \<Rightarrow> (case py_int_opt (group m 1) of Inl e \<Rightarrow> Inl e | Inr y \<Rightarrow> Inr (Some y)))"

text \<open>The single-valued vocabulary loops: the first entry found in the text, then \<^verbatim>\<open>break\<close>.\<close>

definition first_in :: "string list \<Rightarrow> string \<Rightarrow> string option" where
  "first_in vocabulary ql = find (\<lambda>v. py_in (lower v) ql) vocabulary"

text \<open>The features loop has no \<^verbatim>\<open>break\<close>: every entry found is appended.\<close>

definition all_in :: "string list \<Rightarrow> string \<Rightarrow> string list" where
  "all_in vocabulary ql = filter (\<lambda>v. py_in (lower v) ql) vocabulary"

text \<open>The dictionary \<^verbatim>\<open>common_makes\<close>, in insertion order (the order of iteration).\<close>

definition common_makes :: "(string \<times> string) list" where
  "common_makes =
    [(''gmc'', ''GMC''), (''ford'', ''Ford''), (''chevrolet'', ''Chevrolet''),
     (''chevy'', ''Chevrolet''), (''toyota'', ''Toyota''), (''honda'', ''Honda''),
     (''jeep'', ''Jeep''), (''ram'', ''Ram''), (''dodge'', ''Dodge''), (''nissan'', ''Nissan''),
     (''bmw'', ''BMW''), (''mercedes'', ''Mercedes''), (''lexus'', ''Lexus''), (''audi'', ''Audi''),
     (''cadillac'', ''Cadillac''), (''buick'', ''Buick''), (''lincoln'', ''Lincoln''),
     (''acura'', ''Acura''), (''infiniti'', ''Infiniti''), (''volkswagen'', ''Volkswagen''),
     (''volvo'', ''Volvo''), (''subaru'', ''Subaru''), (''mazda'', ''Mazda''), (''kia'', ''Kia''),
     (''hyundai'', ''Hyundai''), (''mitsubishi'', ''Mitsubishi'')]"

text \<open>The loop over a dictionary of lower-case keys: the value of every key found in the text.\<close>

definition values_found :: "(string \<times> string) list \<Rightarrow> string \<Rightarrow> string list" where
  "values_found table ql = map snd (filter (\<lambda>kv. py_in (fst kv) ql) table)"

definition extract_makes :: "string \<Rightarrow> string list" where
  "extract_makes ql = values_found common_makes ql"

text \<open>The \<^verbatim>\<open>if\<close>/\<^verbatim>\<open>elif\<close> chain of model names: the first branch that applies, or none.\<close>

definition extract_models :: "string \<Rightarrow> string list" where
  "extract_models ql =
     (if py_in ''sierra'' ql \<or> py_in ''silverado'' ql then
        (if py_in ''3500'' ql \<or> py_in ''1500'' ql
         then [if py_in ''sierra'' ql then ''Sierra 3500'' else ''Silverado 1500'']
         else [if py_in ''sierra'' ql then ''Sierra'' else ''Silverado''])
      else if py_in ''f-150'' ql \<or> py_in ''f150'' ql then [''F-150'']
      else if py_in ''rav4'' ql then [''RAV4'']
      else if py_in ''cr-v'' ql \<or> py_in ''crv'' ql then [''CR-V'']
      else if py_in ''wrangler'' ql then [''Wrangler'']
      else if py_in ''grand cherokee'' ql then [''Grand Cherokee'']
      else if py_in ''tacoma'' ql then [''Tacoma'']
      else if py_in ''tundra'' ql then [''Tundra'']
      else if py_in ''camry'' ql then [''Camry'']
      else if py_in ''corvette'' ql then [''Corvette'']
      else if py_in ''mustang'' ql then [''Mustang'']
      else [])"

definition trim_patterns :: "(string \<times> string) list" where
  "trim_patterns =
    [(''denali ultimate'', ''Denali Ultimate''), (''denali'', ''Denali''), (''at4'', ''AT4''),
     (''lariat'', ''Lariat''), (''king ranch'', ''King Ranch''), (''platinum'', ''Platinum''),
     (''limited'', ''Limited''), (''rubicon'', ''Rubicon''), (''sahara'', ''Sahara''),
     (''xle'', ''XLE''), (''xse'', ''XSE'')]"

definition extract_trims :: "string \<Rightarrow> string list" where
  "extract_trims ql = values_found trim_patterns ql"

definition no_location :: location where
  "no_location = \<lparr>loc_zip = None, loc_distance = None, loc_city = None, loc_state = None\<rparr>"

text \<open>
  \<^verbatim>\<open>parse_with_patterns(query, catalog)\<close>. The \<^verbatim>\<open>int()\<close> conversions of the prices and
  of the year are the only operations of the function that can raise; an exception leaves
  the function (\<open>Inl\<close>).
\<close>

definition parse_with_patterns :: "string \<Rightarrow> global_filters \<Rightarrow> py_error + parsed" where
  "parse_with_patterns q gf =
     (let query_lower = lower q in
      case extract_price price_patterns query_lower of
        Inl e \<Rightarrow> Inl e
      | Inr (min_price, max_price) \<Rightarrow>
          (case extract_year q of
             Inl e \<Rightarrow> Inl e
           | Inr y \<Rightarrow>
               Inr \<lparr>query = q,
                    structured = \<lparr>
                      makes = extract_makes query_lower,
                      models = extract_models query_lower,
                      trims = extract_trims query_lower,
                      year = y, yearMin = None, yearMax = None,
                      minPrice = min_price, maxPrice = max_price,
                      drivetrain = first_in (drivetrains gf) query_lower,
                      fuelType = first_in (fuel_types gf) query_lower,
                      bodyType = first_in (body_types gf) query_lower,
                      transmission = None, doors = None, cylinders = None,
                      exteriorColor = first_in (exterior_colors gf) query_lower,
                      interiorColor = None,
                      features = all_in (feature_names gf) query_lower,
                      location = no_location\<rparr>\<rparr>))"

section \<open>Numbers out of page text (\<^verbatim>\<open>extract_number\<close>, the same in every scraper)\<close>

text \<open>
  \<^verbatim>\<open>extract_number\<close> keeps digits, commas and dots, drops the commas and evaluates
  \<^verbatim>\<open>int(float(cleaned))\<close> under a bare \<^verbatim>\<open>except\<close> that returns 0. What is left for
  \<^verbatim>\<open>float\<close> is a decimal literal \<open>N / 10 ^ k\<close> (or something \<^verbatim>\<open>float\<close> rejects).
  \<open>int_of_float N D\<close> is \<^verbatim>\<open>int(float(N / D))\<close> for the IEEE double nearest to \<open>N / D\<close>
  (round to nearest, ties to even), \<open>None\<close> when that double is infinite and \<^verbatim>\<open>int\<close>
  raises \<^verbatim>\<open>OverflowError\<close>. Below \<open>2 ^ 53\<close> a whole number is converted exactly.
\<close>

function bit_length :: "int \<Rightarrow> nat" where
  "bit_length n = (if n \<le> 0 then 0 else Suc (bit_length (n div 2)))"
  by pat_completeness auto
termination
  by (relation "measure nat") auto

definition round_even :: "int \<Rightarrow> int \<Rightarrow> int" where
  "round_even a b =
     (let m = a div b; r = a mod b
      in if b < 2 * r \<or> (2 * r = b \<and> odd m) then m + 1 else m)"

definition int_of_float :: "int \<Rightarrow> int \<Rightarrow> int option" where
  "int_of_float N D =
     (if 2 * N < D then Some 0
      else let L = bit_length (N div D) in
        if L \<le> 53 then Some (round_even (N * 2 ^ (53 - L)) D div 2 ^ (53 - L))
        else let v = round_even N (D * 2 ^ (L - 53)) * 2 ^ (L - 53)
             in if 2 ^ 1024 \<le> v then None else Some v)"

text \<open>\<^verbatim>\<open>int(float(s))\<close> for a string of digits and dots; \<open>None\<close> when it raises.\<close>

definition py_int_float :: "string \<Rightarrow> int option" where
  "py_int_float s =
     (let whole = takeWhile (\<lambda>c. c \<noteq> CHR ''.'') s;
          frac = drop (Suc (length whole)) s
      in if CHR ''.'' \<in> set frac \<or> (whole = [] \<and> frac = []) then None
         else int_of_float (digits_val (whole @ frac)) (10 ^ length frac))"

definition extract_number :: "string \<Rightarrow> int" where
  "extract_number text =
     (if text = [] then 0
      else let cleaned = filter (\<lambda>c. c \<noteq> CHR '','')
                           (filter (\<lambda>c. is_digit c \<or> c = CHR '','' \<or> c = CHR ''.'') text)
           in case py_int_float cleaned of None \<Rightarrow> 0 | Some n \<Rightarrow> n)"

text \<open>\<^verbatim>\<open>extract_number(m.group(i))\<close>: \<^verbatim>\<open>None\<close> is falsy and gives 0.\<close>

definition extract_number_opt :: "string option \<Rightarrow> int" where
  "extract_number_opt g = (case g of None \<Rightarrow> 0 | Some s \<Rightarrow> extract_number s)"

section \<open>Listings\<close>

text \<open>
  The dictionary every scraper appends to its result list; its key \<^verbatim>\<open>location\<close> is the
  field \<open>location_text\<close>.
\<close>

record listing =
  name :: string
  price :: int
  mileage :: int
  image :: string
  retailer :: string
  url :: string
  location_text :: string

section \<open>The AutoTrader scraper over CDP (scrape-autotrader-cdp.py)\<close>

text \<open>
  What the browser shows of one listing link: its \<^verbatim>\<open>href\<close>, its own text, the
  \<^verbatim>\<open>innerText\<close> of its parent elements from the nearest outwards, and the image source
  the image script finds (empty when it finds none). A link on which the browser calls of
  the extraction loop raise is skipped by the loop, as a link without text is.
\<close>

record link =
  href :: "string option"
  inner_text :: string
  ancestors :: "string list"
  img_src :: string

text \<open>
  One run against the browser: the CDP connection fails; or a page-level browser call
  raises before extraction starts; or the page renders, with its body text and the links
  matching \<^verbatim>\<open>a[href*="/cars-for-sale/vehicle/"]\<close> after scrolling. The scroll loop only
  drives the browser (at most 15 rounds) and is not part of the model.
\<close>

datatype cdp_world = CdpUnreachable | PageError | Rendered string "link list"

text \<open>The \<^verbatim>\<open>return\<close> statement a run leaves by, each with the value it returns.\<close>

datatype cdp_exit =
    ConnectFailed
  | BotDetected
  | NoResultsFound
  | NoListingLinks
  | ScrapingError
  | Extracted "listing list"

fun returned :: "cdp_exit \<Rightarrow> listing list option" where
  "returned ConnectFailed = None"
| "returned (Extracted ls) = Some ls"
| "returned _ = Some []"

text \<open>
  The two indicator lists. An apostrophe inside a phrase is written \<open>CHR 0x27\<close>, and
  the phrases are joined from their pieces with \<open>@\<close>.
\<close>

definition bot_detection_indicators :: "string list" where
  "bot_detection_indicators =
    [''page unavailable'', ''site unavailable'', ''access denied'', ''blocked'',
     ''couldn'' @ [CHR 0x27] @ ''t find the page'', ''having trouble'', ''please try again later'',
     ''Access to this page has been denied'', ''you don'' @ [CHR 0x27] @ ''t have permission'',
     ''Incident Number:'', ''We'' @ [CHR 0x27] @ ''re sorr'' @ ''y for any inconvenience'']"

definition no_results_indicators :: "string list" where
  "no_results_indicators =
    [''No matching vehicles'', ''No results found'', ''0 results'', ''No cars found'',
     ''Try changing your search'', ''No exact matches'']"

definition bot_detected :: "string \<Rightarrow> bool" where
  "bot_detected page_text =
     list_ex (\<lambda>indicator. py_in (lower indicator) (lower page_text)) bot_detection_indicators"

definition no_results :: "string \<Rightarrow> bool" where
  "no_results page_text = list_ex (\<lambda>indicator. py_in indicator page_text) no_results_indicators"

text \<open>\<^verbatim>\<open>/vehicle/(\d+)\<close>\<close>

definition vehicle_id_pattern :: regex where
  "vehicle_id_pattern = Cat (Str ''/vehicle/'') (Grp 1 digits1)"

text \<open>
  The vehicle id the deduplication loop derives from a link: none when the link has no
  \<^verbatim>\<open>href\<close> (the loop \<^verbatim>\<open>continue\<close>s) and none when the pattern does not match.
\<close>

definition vehicle_id :: "link \<Rightarrow> string option" where
  "vehicle_id l =
     (let url = (case href l of None \<Rightarrow> [] | Some u \<Rightarrow> u) in
      if url = [] then None
      else case re_search False vehicle_id_pattern (before_hash url) of
             None \<Rightarrow> None
           | Some m \<Rightarrow> group m 1)"

text \<open>The state of the deduplication loop and one round of it.\<close>

record dedup =
  seen_vehicle_ids :: "string set"
  unique_listings :: "link list"
  skipped_count :: nat

definition dedup_step :: "dedup \<Rightarrow> link \<Rightarrow> dedup" where
  "dedup_step d l =
     (case vehicle_id l of
        None \<Rightarrow> d
      | Some v \<Rightarrow>
          if v \<in> seen_vehicle_ids d then d\<lparr>skipped_count := Suc (skipped_count d)\<rparr>
          else d\<lparr>seen_vehicle_ids := insert v (seen_vehicle_ids d),
                 unique_listings := unique_listings d @ [l]\<rparr>)"

text \<open>The deduplication loop over \<^verbatim>\<open>listings\<close>: \<^verbatim>\<open>unique_listings\<close> at its end.\<close>

definition dedupe :: "link list \<Rightarrow> link list" where
  "dedupe listings =
     unique_listings
       (foldl dedup_step \<lparr>seen_vehicle_ids = {}, unique_listings = [], skipped_count = 0\<rparr> listings)"

text \<open>\<^verbatim>\<open>xs[:n]\<close> for any integer \<open>n\<close>: a negative \<open>n\<close> counts from the end.\<close>

definition py_take :: "int \<Rightarrow> 'a list \<Rightarrow> 'a list" where
  "py_take n xs = (if 0 \<le> n then take (nat n) xs else take (length xs - nat (- n)) xs)"

text \<open>
  The text a listing is read from. First the nearest of the 12 nearest ancestors whose
  text is longer than 100 characters; if there is none, the script that walks up to 15
  ancestors for a text with a dollar sign, \<^verbatim>\<open>mi\<close> and more than 100 characters.
\<close>

definition ancestor_text :: "string list \<Rightarrow> string" where
  "ancestor_text anc =
     (case find (\<lambda>t. 100 < length t) (take 12 anc) of None \<Rightarrow> [] | Some t \<Rightarrow> t)"

definition card_text :: "string list \<Rightarrow> string" where
  "card_text anc =
     (case find (\<lambda>t. py_in ''$'' t \<and> py_in ''mi'' t \<and> 100 < length t) (take 15 anc) of
        None \<Rightarrow> [] | Some t \<Rightarrow> t)"

definition resolve_text :: "string list \<Rightarrow> string" where
  "resolve_text anc =
     (let all_text = ancestor_text anc in
      if all_text = [] \<or> length all_text < 50
      then (let ct = card_text anc in
            if ct \<noteq> [] \<and> length all_text < length ct then ct else all_text)
      else all_text)"

text \<open>\<^verbatim>\<open>\$\s*([\d,]+)\<close>, \<^verbatim>\<open>(\d{1,2},\d{3})\<close>, \<^verbatim>\<open>(\d{5,6})\<close> and \<^verbatim>\<open>(\d+)\s*mi\b\<close>\<close>

definition dollar_pattern :: regex where
  "dollar_pattern =
     cats [Ch (Lit CHR ''$''), spaces0, Grp 1 (Rep (OneOf [Digit, Lit CHR '','']) 1 None)]"

definition comma_pattern :: regex where
  "comma_pattern = Grp 1 (cats [Rep Digit 1 (Some 2), Ch (Lit CHR '',''), Rep Digit 3 (Some 3)])"

definition plain_pattern :: regex where
  "plain_pattern = Grp 1 (Rep Digit 5 (Some 6))"

definition mileage_pattern :: regex where
  "mileage_pattern = cats [Grp 1 digits1, spaces0, Str ''mi'', Bnd]"

text \<open>One \<^verbatim>\<open>finditer\<close> loop of the price heuristic: the pairs it appends.\<close>

definition price_candidates :: "regex \<Rightarrow> string \<Rightarrow> (int \<times> nat) list" where
  "price_candidates r all_text =
     concat (map (\<lambda>m. let potential_price = extract_number_opt (group m 1) in
                       if 1900 \<le> potential_price \<and> potential_price \<le> 2100 then []
                       else if 5000 \<le> potential_price \<and> potential_price \<le> 500000
                            then [(potential_price, m_start m)]
                            else [])
               (re_finditer False r all_text))"

definition extract_price_text :: "string \<Rightarrow> int" where
  "extract_price_text all_text =
     (case re_search False dollar_pattern all_text of
        Some m \<Rightarrow> extract_number_opt (group m 1)
      | None \<Rightarrow>
          (let c1 = price_candidates comma_pattern all_text;
               cs = (if c1 = [] then price_candidates plain_pattern all_text else c1)
           in if cs \<noteq> [] then fst (last cs) else 0))"

definition extract_mileage_text :: "string \<Rightarrow> py_error + int" where
  "extract_mileage_text all_text =
     (case re_search True mileage_pattern all_text of
        None \<Rightarrow> Inr 0
      | Some m \<Rightarrow> py_int_opt (group m 1))"

text \<open>
  The other scrapers that read the mileage from a card's text (scrape-autotrader.py,
  \<^verbatim>\<open>scrape_truecar_camoufox\<close>) use \<^verbatim>\<open>(\d+[,\d]*)\s*mi\<close> under \<^verbatim>\<open>re.IGNORECASE\<close> and
  \<^verbatim>\<open>extract_number\<close>.
\<close>

definition grouped_mileage_pattern :: regex where
  "grouped_mileage_pattern =
     cats [Grp 1 (Cat digits1 (Rep (OneOf [Lit CHR '','', Digit]) 0 None)), spaces0, Str ''mi'']"

definition extract_mileage_grouped :: "string \<Rightarrow> int" where
  "extract_mileage_grouped all_text =
     (case re_search True grouped_mileage_pattern all_text of
        None \<Rightarrow> 0
      | Some m \<Rightarrow> extract_number_opt (group m 1))"

text \<open>
  \<^verbatim>\<open>([A-Z][a-zA-Z]+\s+(?:Buick|GMC|Ford|Toyota|Honda|Chevrolet)\s+(?:[A-Z][a-z]+)?)\<close>
\<close>

definition dealer_pattern :: regex where
  "dealer_pattern =
     Grp 1 (cats [Ch Upper, Rep (OneOf [Lower, Upper]) 1 None, spaces1,
                  Alt (Str ''Buick'') (Alt (Str ''GMC'') (Alt (Str ''Ford'')
                    (Alt (Str ''Toyota'') (Alt (Str ''Honda'') (Str ''Chevrolet''))))),
                  spaces1, Opt (Cat (Ch Upper) (Rep Lower 1 None))])"

definition extract_location :: "string \<Rightarrow> string" where
  "extract_location all_text =
     (case re_search False dealer_pattern all_text of
        None \<Rightarrow> ''AutoTrader''
      | Some m \<Rightarrow> ''AutoTrader ('' @ (case group m 1 of None \<Rightarrow> ''None'' | Some d \<Rightarrow> d) @ '')'')"

definition listing_url :: "link \<Rightarrow> string" where
  "listing_url l =
     (let u = before_hash (case href l of None \<Rightarrow> [] | Some u \<Rightarrow> u) in
      if startswith u ''http'' then u else ''https://www.autotrader.com'' @ u)"

text \<open>
  The body of the extraction loop for one link: \<open>Inr None\<close> when the link is skipped or
  its price is not positive, \<open>Inl\<close> when the body raises (the loop logs and goes on).
\<close>

definition extract_listing :: "link \<Rightarrow> py_error + listing option" where
  "extract_listing l =
     (let title = strip (inner_text l) in
      if title = [] \<or> length title < 10
         \<or> title \<in> set [''No Accidents'', ''Clean Title'', '' accident'']
      then Inr None
      else let all_text = resolve_text (ancestors l);
               p = extract_price_text all_text
           in case extract_mileage_text all_text of
                Inl e \<Rightarrow> Inl e
              | Inr mi \<Rightarrow>
                  if 0 < p
                  then Inr (Some \<lparr>name = title, price = p, mileage = mi, image = img_src l,
                                  retailer = ''AutoTrader'', url = listing_url l,
                                  location_text = extract_location all_text\<rparr>)
                  else Inr None)"

text \<open>The extraction loop: what ends up in \<^verbatim>\<open>results\<close>.\<close>

definition extract_all :: "link list \<Rightarrow> listing list" where
  "extract_all ls =
     concat (map (\<lambda>l. case extract_listing l of Inr (Some x) \<Rightarrow> [x] | _ \<Rightarrow> []) ls)"

definition run_autotrader_cdp :: "int \<Rightarrow> cdp_world \<Rightarrow> cdp_exit" where
  "run_autotrader_cdp max_results w =
     (case w of
        CdpUnreachable \<Rightarrow> ConnectFailed
      | PageError \<Rightarrow> ScrapingError
      | Rendered page_text listings \<Rightarrow>
          if bot_detected page_text then BotDetected
          else if no_results page_text then NoResultsFound
          else if listings = [] then NoListingLinks
          else Extracted (extract_all (py_take max_results (dedupe listings))))"

definition scrape_autotrader_cdp :: "int \<Rightarrow> cdp_world \<Rightarrow> listing list option" where
  "scrape_autotrader_cdp max_results w = returned (run_autotrader_cdp max_results w)"

section \<open>The TrueCar scraper (scrape-truecar.py)\<close>

text \<open>
  \<^verbatim>\<open>search_filters\<close> is a dictionary decoded from JSON. Its entries are kept in
  insertion order; the values modelled are the JSON scalars (the list under \<^verbatim>\<open>trims\<close>
  is read by the browser channel only).
\<close>

datatype fval = FNull | FBool bool | FInt int | FStr string

type_synonym filters = "(string \<times> fval) list"

text \<open>Python truthiness of \<^verbatim>\<open>search_filters.get(key)\<close>; a missing key gives \<^verbatim>\<open>None\<close>.\<close>

fun truthy :: "fval option \<Rightarrow> bool" where
  "truthy None = False"
| "truthy (Some FNull) = False"
| "truthy (Some (FBool b)) = b"
| "truthy (Some (FInt n)) = (n \<noteq> 0)"
| "truthy (Some (FStr s)) = (s \<noteq> [])"

function show_digits :: "int \<Rightarrow> string" where
  "show_digits n =
     (if n < 10 then [digits ! nat n] else show_digits (n div 10) @ [digits ! nat (n mod 10)])"
  by pat_completeness auto
termination
  by (relation "measure nat") auto

text \<open>\<^verbatim>\<open>str(n)\<close> for an integer.\<close>

definition show_int :: "int \<Rightarrow> string" where
  "show_int n = (if n < 0 then CHR ''-'' # show_digits (- n) else show_digits n)"

fun py_str :: "fval \<Rightarrow> string" where
  "py_str FNull = ''None''"
| "py_str (FBool b) = (if b then ''True'' else ''False'')"
| "py_str (FInt n) = show_int n"
| "py_str (FStr s) = s"

text \<open>
  The GraphQL reply, after \<^verbatim>\<open>resp.json()\<close>, in the shape the query asks for. A member
  of a JSON object is missing, \<^verbatim>\<open>null\<close> or has a value: \<^verbatim>\<open>d.get(key, default)\<close> gives
  the default for a missing member only, and \<^verbatim>\<open>None\<close> for \<^verbatim>\<open>null\<close>.
\<close>

datatype 'a field = Absent | Null | Val 'a

definition get_or :: "'a field \<Rightarrow> 'a \<Rightarrow> 'a option" where
  "get_or f dflt = (case f of Absent \<Rightarrow> Some dflt | Null \<Rightarrow> None | Val v \<Rightarrow> Some v)"

record named_obj =
  g_name :: "string field"

record vehicle_obj =
  g_make :: "named_obj field"
  g_model :: "named_obj field"
  g_year :: "int field"
  g_mileage :: "int field"

record pricing_obj =
  g_listPrice :: "int field"

record node_obj =
  g_vehicle :: "vehicle_obj field"
  g_pricing :: "pricing_obj field"

record edge_obj =
  g_node :: "node_obj field"

record search_obj =
  g_edges :: "edge_obj list field"

record data_obj =
  g_vehicleSearch :: "search_obj field"

record response =
  g_errors :: "string list field"
  g_data :: "data_obj field"

text \<open>The empty dictionaries that serve as defaults of \<^verbatim>\<open>.get\<close>.\<close>

definition no_named :: named_obj where
  "no_named = \<lparr>g_name = Absent\<rparr>"

definition no_vehicle :: vehicle_obj where
  "no_vehicle = \<lparr>g_make = Absent, g_model = Absent, g_year = Absent, g_mileage = Absent\<rparr>"

definition no_pricing :: pricing_obj where
  "no_pricing = \<lparr>g_listPrice = Absent\<rparr>"

definition no_node :: node_obj where
  "no_node = \<lparr>g_vehicle = Absent, g_pricing = Absent\<rparr>"

definition no_search :: search_obj where
  "no_search = \<lparr>g_edges = Absent\<rparr>"

definition no_data :: data_obj where
  "no_data = \<lparr>g_vehicleSearch = Absent\<rparr>"

text \<open>Calling \<^verbatim>\<open>.get\<close> on \<^verbatim>\<open>None\<close> raises \<^verbatim>\<open>AttributeError\<close>.\<close>

definition attr :: "'a option \<Rightarrow> py_error + 'a" where
  "attr x = (case x of None \<Rightarrow> Inl AttributeError | Some v \<Rightarrow> Inr v)"

definition and_then :: "py_error + 'a \<Rightarrow> ('a \<Rightarrow> py_error + 'b) \<Rightarrow> py_error + 'b" where
  "and_then x f = (case x of Inl e \<Rightarrow> Inl e | Inr v \<Rightarrow> f v)"

text \<open>
  \<^verbatim>\<open>d.get(key, '')\<close> inside an f-string: nothing for a missing member, \<^verbatim>\<open>None\<close> for
  \<^verbatim>\<open>null\<close>, the value otherwise.
\<close>

definition fmt_get :: "('a \<Rightarrow> string) \<Rightarrow> 'a field \<Rightarrow> string" where
  "fmt_get sh f = (case f of Absent \<Rightarrow> [] | Null \<Rightarrow> ''None'' | Val v \<Rightarrow> sh v)"

text \<open>\<^verbatim>\<open>d.get(key, 0) or 0\<close>\<close>

definition get_or_zero :: "int field \<Rightarrow> int" where
  "get_or_zero f = (case get_or f 0 of None \<Rightarrow> 0 | Some v \<Rightarrow> v)"

text \<open>The body of the loop over \<^verbatim>\<open>edges\<close>: the dictionary appended for one edge.\<close>

definition edge_listing :: "edge_obj \<Rightarrow> py_error + listing" where
  "edge_listing edge =
     and_then (attr (get_or (g_node edge) no_node)) (\<lambda>node.
     and_then (attr (get_or (g_vehicle node) no_vehicle)) (\<lambda>vehicle.
     and_then (attr (get_or (g_make vehicle) no_named)) (\<lambda>make.
     and_then (attr (get_or (g_model vehicle) no_named)) (\<lambda>model.
     and_then (attr (get_or (g_pricing node) no_pricing)) (\<lambda>pricing.
       Inr \<lparr>name = strip (fmt_get show_int (g_year vehicle) @ '' ''
                          @ fmt_get (\<lambda>s. s) (g_name make) @ '' ''
                          @ fmt_get (\<lambda>s. s) (g_name model)),
            price = get_or_zero (g_listPrice pricing),
            mileage = get_or_zero (g_mileage vehicle),
            image = [],
            retailer = ''TrueCar'',
            url = ''https://www.truecar.com'',
            location_text = ''TrueCar''\<rparr>)))))"

fun edge_listings :: "edge_obj list \<Rightarrow> py_error + listing list" where
  "edge_listings [] = Inr []"
| "edge_listings (e # es) =
     and_then (edge_listing e) (\<lambda>x. and_then (edge_listings es) (\<lambda>xs. Inr (x # xs)))"

text \<open>
  The outcome of the one POST a run makes: the request or the decoding of the reply
  raises, or a reply arrives with a status and a decoded body.
\<close>

datatype http_outcome = RequestRaised | Replied nat response

text \<open>
  What a run meets outside the program: whether \<^verbatim>\<open>aiohttp\<close> can be imported, the
  outcome of the POST, and what the call of \<^verbatim>\<open>scrape_truecar_camoufox\<close> with the same
  arguments yields (the browser channel): the list it returns or the exception it raises.
\<close>

record truecar_world =
  aiohttp_installed :: bool
  post_outcome :: http_outcome
  camoufox_outcome :: "py_error + listing list"

text \<open>\<^verbatim>\<open>search_filters.get(key)\<close>\<close>

definition fget :: "filters \<Rightarrow> string \<Rightarrow> fval option" where
  "fget sf k = map_of sf k"

text \<open>The value under a key when it is truthy, as a list of at most one element.\<close>

definition if_truthy :: "filters \<Rightarrow> string \<Rightarrow> fval list" where
  "if_truthy sf k =
     (case fget sf k of None \<Rightarrow> [] | Some v \<Rightarrow> if truthy (Some v) then [v] else [])"

text \<open>
  \<^verbatim>\<open>query_parts\<close>: make, model, \<^verbatim>\<open>str(year)\<close> and series, each only when truthy.
\<close>

definition query_parts :: "filters \<Rightarrow> fval list" where
  "query_parts sf =
     if_truthy sf ''make'' @ if_truthy sf ''model''
     @ map (\<lambda>y. FStr (py_str y)) (if_truthy sf ''year'') @ if_truthy sf ''series''"

fun is_str :: "fval \<Rightarrow> bool" where
  "is_str (FStr s) = True"
| "is_str v = False"

fun joined :: "fval list \<Rightarrow> string" where
  "joined [] = []"
| "joined [v] = py_str v"
| "joined (v # vs) = py_str v @ '' '' @ joined vs"

text \<open>\<^verbatim>\<open>' '.join(parts)\<close>: \<^verbatim>\<open>TypeError\<close> unless every part is a string.\<close>

definition py_join :: "fval list \<Rightarrow> py_error + string" where
  "py_join parts = (if list_all is_str parts then Inr (joined parts) else Inl TypeError)"

text \<open>From the reply to \<^verbatim>\<open>results\<close>, inside the \<^verbatim>\<open>try\<close>.\<close>

definition read_edges :: "response \<Rightarrow> py_error + listing list option" where
  "read_edges resp =
     and_then (attr (get_or (g_data resp) no_data)) (\<lambda>data.
     and_then (attr (get_or (g_vehicleSearch data) no_search)) (\<lambda>search.
       case get_or (g_edges search) [] of
         None \<Rightarrow> Inr None
       | Some edges \<Rightarrow>
           if edges = [] then Inr None
           else and_then (edge_listings edges)
                  (\<lambda>results. Inr (if results \<noteq> [] then Some results else None))))"

text \<open>The \<^verbatim>\<open>try\<close> block of the fast channel; every exception in it returns \<^verbatim>\<open>None\<close>.\<close>

definition graphql_reply :: "http_outcome \<Rightarrow> listing list option" where
  "graphql_reply out =
     (case out of
        RequestRaised \<Rightarrow> None
      | Replied status resp \<Rightarrow>
          if status \<noteq> 200 then None
          else if g_errors resp \<noteq> Absent then None
          else (case read_edges resp of Inl e \<Rightarrow> None | Inr r \<Rightarrow> r))"

definition scrape_truecar_graphql ::
    "filters \<Rightarrow> int \<Rightarrow> truecar_world \<Rightarrow> py_error + listing list option" where
  "scrape_truecar_graphql sf max_results w =
     (if \<not> aiohttp_installed w then Inr None
      else let parts = query_parts sf in
        if parts = [] then Inr None
        else and_then (py_join parts) (\<lambda>search_query.
               if search_query = [] then Inr None
               else Inr (graphql_reply (post_outcome w))))"

text \<open>
  A run of \<^verbatim>\<open>scrape_truecar\<close>: the channels it called, in order, and what it yields.
\<close>

datatype channel = FastChannel | BrowserChannel

record truecar_run =
  channels :: "channel list"
  outcome :: "py_error + listing list"

definition scrape_truecar :: "filters option \<Rightarrow> int \<Rightarrow> truecar_world \<Rightarrow> truecar_run" where
  "scrape_truecar search_filters max_results w =
     (case search_filters of
        None \<Rightarrow> \<lparr>channels = [], outcome = Inr []\<rparr>
      | Some sf \<Rightarrow>
          if sf = [] then \<lparr>channels = [], outcome = Inr []\<rparr>
          else if truthy (fget sf ''make'') \<and> truthy (fget sf ''model'')
          then (case scrape_truecar_graphql sf max_results w of
                  Inl e \<Rightarrow> \<lparr>channels = [FastChannel], outcome = Inl e\<rparr>
                | Inr None \<Rightarrow>
                    \<lparr>channels = [FastChannel, BrowserChannel], outcome = camoufox_outcome w\<rparr>
                | Inr (Some results) \<Rightarrow>
                    if results \<noteq> [] then \<lparr>channels = [FastChannel], outcome = Inr results\<rparr>
                    else \<lparr>channels = [FastChannel, BrowserChannel],
                          outcome = camoufox_outcome w\<rparr>)
          else \<lparr>channels = [BrowserChannel], outcome = camoufox_outcome w\<rparr>)"

section \<open>Notions used in the proofs\<close>

text \<open>A captured text that \<^verbatim>\<open>int()\<close> accepts for sure: decimal digits, at least one.\<close>

definition digit_text :: "string \<Rightarrow> bool" where
  "digit_text s = (s \<noteq> [] \<and> list_all is_digit s)"

definition digit_caps :: "(nat \<times> string) list \<Rightarrow> bool" where
  "digit_caps cp = list_all (\<lambda>c. digit_text (snd c)) cp"

text \<open>Patterns that read digits only, and patterns that read at least one character.\<close>

fun only_digits :: "bool \<Rightarrow> regex \<Rightarrow> bool" where
  "only_digits ic (Ch cs) = (cs = Digit)"
| "only_digits ic (Rep cs lo hi) = (cs = Digit)"
| "only_digits ic (Str w) = (\<not> ic \<and> list_all is_digit w)"
| "only_digits ic (Opt r) = only_digits ic r"
| "only_digits ic (Alt r1 r2) = (only_digits ic r1 \<and> only_digits ic r2)"
| "only_digits ic (Cat r1 r2) = (only_digits ic r1 \<and> only_digits ic r2)"
| "only_digits ic (Grp i r) = only_digits ic r"
| "only_digits ic Bnd = True"

fun nonempty :: "regex \<Rightarrow> bool" where
  "nonempty (Ch cs) = True"
| "nonempty (Rep cs lo hi) = (0 < lo)"
| "nonempty (Str w) = (w \<noteq> [])"
| "nonempty (Opt r) = False"
| "nonempty (Alt r1 r2) = (nonempty r1 \<and> nonempty r2)"
| "nonempty (Cat r1 r2) = (nonempty r1 \<or> nonempty r2)"
| "nonempty (Grp i r) = nonempty r"
| "nonempty Bnd = False"

text \<open>Every group of the pattern captures a non-empty run of digits.\<close>

fun digit_groups :: "bool \<Rightarrow> regex \<Rightarrow> bool" where
  "digit_groups ic (Opt r) = digit_groups ic r"
| "digit_groups ic (Alt r1 r2) = (digit_groups ic r1 \<and> digit_groups ic r2)"
| "digit_groups ic (Cat r1 r2) = (digit_groups ic r1 \<and> digit_groups ic r2)"
| "digit_groups ic (Grp i r) = (only_digits ic r \<and> nonempty r \<and> digit_groups ic r)"
| "digit_groups ic r = True"

text \<open>Group \<open>i\<close> takes part in every match of the pattern.\<close>

fun always_sets :: "nat \<Rightarrow> regex \<Rightarrow> bool" where
  "always_sets i (Alt r1 r2) = (always_sets i r1 \<and> always_sets i r2)"
| "always_sets i (Cat r1 r2) = (always_sets i r1 \<or> always_sets i r2)"
| "always_sets i (Grp j r) = (i = j \<or> always_sets i r)"
| "always_sets i r = False"


text \<open>The vehicle ids that occur among the links of a list.\<close>

definition ids_of :: "link list \<Rightarrow> string set" where
  "ids_of xs = {v. \<exists>x \<in> set xs. vehicle_id x = Some v}"

text \<open>The invariant of the deduplication loop after the links \<open>xs\<close>.\<close>

definition dedup_inv :: "link list \<Rightarrow> dedup \<Rightarrow> bool" where
  "dedup_inv xs d =
     (seen_vehicle_ids d = ids_of xs
      \<and> distinct (map vehicle_id (unique_listings d))
      \<and> subseq (unique_listings d) xs
      \<and> None \<notin> vehicle_id ` set (unique_listings d)
      \<and> (\<forall>v. find (\<lambda>y. vehicle_id y = Some v) (unique_listings d)
               = find (\<lambda>x. vehicle_id x = Some v) xs))"

section \<open>Concrete inputs\<close>

text \<open>A catalog without vocabularies, and the query structure in which nothing was found.\<close>

definition no_filters :: global_filters where
  "no_filters = \<lparr>exterior_colors = [], body_types = [], drivetrains = [], fuel_types = [],
                 feature_names = []\<rparr>"

definition found_nothing :: structured where
  "found_nothing = \<lparr>makes = [], models = [], trims = [], year = None, yearMin = None,
     yearMax = None, minPrice = None, maxPrice = None, drivetrain = None, fuelType = None,
     bodyType = None, transmission = None, doors = None, cylinders = None, exteriorColor = None,
     interiorColor = None, features = [], location = no_location\<rparr>"

text \<open>
  A listing card of 117 characters with the price \<^verbatim>\<open>$103,615\<close> and the mileage
  \<^verbatim>\<open>60,000 mi\<close>, and its link: the link's parent holds only the title, the grandparent
  is the card.
\<close>

definition scenario4_text :: string where
  "scenario4_text = ''Used 2021 GMC Sierra 3500 Denali Ultimate\<newline>60,000 mi\<newline>$103,615\<newline>Dublin Buick GMC\<newline>Confirm Availability\<newline>Free CARFAX report''"

definition scenario4_link :: link where
  "scenario4_link = \<lparr>href = Some ''/cars-for-sale/vehicle/765432109'',
     inner_text = ''Used 2021 GMC Sierra 3500 Denali Ultimate'',
     ancestors = [''Used 2021 GMC Sierra 3500 Denali Ultimate'', scenario4_text],
     img_src = []\<rparr>"

text \<open>A listing card of 118 characters whose price \<^verbatim>\<open>250,000\<close> has no dollar sign.\<close>

definition six_digit_text :: string where
  "six_digit_text = ''2022 Lamborghini Urus Performante\<newline>250,000\<newline>850 mi\<newline>Beverly Hills Motorcars\<newline>Check availability\<newline>Free delivery to your door''"

definition six_digit_link :: link where
  "six_digit_link = \<lparr>href = Some ''/cars-for-sale/vehicle/700100200'',
     inner_text = ''2022 Lamborghini Urus Performante'',
     ancestors = [six_digit_text],
     img_src = []\<rparr>"

text \<open>A page text with a bot-defense phrase and a no-results phrase.\<close>

definition blocked_page :: string where
  "blocked_page = ''Access to this page has been denied. No results found''"

text \<open>
  Four listing links: \<open>link_a\<close> and \<open>link_c\<close> lead to vehicle 111, \<open>link_b\<close> to vehicle
  222, and the \<^verbatim>\<open>href\<close> of \<open>link_d\<close> has no digits after \<^verbatim>\<open>/vehicle/\<close>.
\<close>

definition link_a :: link where
  "link_a = \<lparr>href = Some ''/cars-for-sale/vehicle/111'',
     inner_text = ''2021 GMC Sierra 1500 Denali'', ancestors = [], img_src = []\<rparr>"

definition link_b :: link where
  "link_b = \<lparr>href = Some ''https://www.autotrader.com/cars-for-sale/vehicle/222#photos'',
     inner_text = ''2019 Ford F-150 Lariat'', ancestors = [], img_src = []\<rparr>"

definition link_c :: link where
  "link_c = \<lparr>href = Some ''/cars-for-sale/vehicle/111?clickType=spotlight'',
     inner_text = ''See payment details'', ancestors = [], img_src = []\<rparr>"

definition link_d :: link where
  "link_d = \<lparr>href = Some ''/cars-for-sale/vehicle/certified'',
     inner_text = ''2020 Toyota Tacoma TRD Off-Road'', ancestors = [], img_src = []\<rparr>"

text \<open>
  TrueCar: filters with a make and a model, a GraphQL reply with one edge (with or without
  an \<^verbatim>\<open>errors\<close> member, with a given \<^verbatim>\<open>listPrice\<close>), and the listing the fast channel
  builds from that edge.
\<close>

definition sierra_filters :: filters where
  "sierra_filters = [(''make'', FStr ''GMC''), (''model'', FStr ''Sierra'')]"

definition sierra_edge :: "int field \<Rightarrow> edge_obj" where
  "sierra_edge list_price =
     \<lparr>g_node = Val \<lparr>g_vehicle = Val \<lparr>g_make = Val \<lparr>g_name = Val ''GMC''\<rparr>,
                                     g_model = Val \<lparr>g_name = Val ''Sierra''\<rparr>,
                                     g_year = Val 2021, g_mileage = Val 60000\<rparr>,
                    g_pricing = Val \<lparr>g_listPrice = list_price\<rparr>\<rparr>\<rparr>"

definition sierra_reply :: "string list field \<Rightarrow> int field \<Rightarrow> response" where
  "sierra_reply errs list_price =
     \<lparr>g_errors = errs,
      g_data = Val \<lparr>g_vehicleSearch = Val \<lparr>g_edges = Val [sierra_edge list_price]\<rparr>\<rparr>\<rparr>"

definition sierra_listing :: "int \<Rightarrow> listing" where
  "sierra_listing p = \<lparr>name = ''2021 GMC Sierra'', price = p, mileage = 60000, image = [],
     retailer = ''TrueCar'', url = ''https://www.truecar.com'', location_text = ''TrueCar''\<rparr>"

definition browser_listing :: listing where
  "browser_listing = \<lparr>name = ''2020 GMC Sierra 1500'', price = 41990, mileage = 35000,
     image = [], retailer = ''TrueCar'', url = ''https://www.truecar.com/listing/1'',
     location_text = ''TrueCar''\<rparr>"

definition errors_world :: truecar_world where
  "errors_world = \<lparr>aiohttp_installed = True,
     post_outcome = Replied 200 (sierra_reply (Val [''Internal server error'']) (Val 45000)),
     camoufox_outcome = Inr [browser_listing]\<rparr>"

definition null_price_world :: truecar_world where
  "null_price_world = \<lparr>aiohttp_installed = True,
     post_outcome = Replied 200 (sierra_reply Absent Null),
     camoufox_outcome = Inr []\<rparr>"

section \<open>Text and pattern matching: general facts\<close>

lemma startswith_iff: "startswith s p \<longleftrightarrow> (\<exists>r. s = p @ r)"
  by (induction s p rule: startswith.induct) auto

lemma py_in_iff: "py_in n h \<longleftrightarrow> (\<exists>a b. h = a @ n @ b)"
proof (induction h)
  case Nil
  then show ?case by auto
next
  case (Cons c h)
  show ?case
  proof
    assume "py_in n (c # h)"
    then consider "startswith (c # h) n" | "py_in n h" by auto
    then show "\<exists>a b. c # h = a @ n @ b"
    proof cases
      case 1
      then obtain r where "c # h = n @ r" by (auto simp: startswith_iff)
      then have "c # h = [] @ n @ r" by simp
      then show ?thesis by blast
    next
      case 2
      then obtain a b where "h = a @ n @ b" using Cons.IH by auto
      then have "c # h = (c # a) @ n @ b" by simp
      then show ?thesis by blast
    qed
  next
    assume "\<exists>a b. c # h = a @ n @ b"
    then obtain a b where ab: "c # h = a @ n @ b" by auto
    show "py_in n (c # h)"
    proof (cases a)
      case Nil
      with ab have "startswith (c # h) n" by (auto simp: startswith_iff)
      then show ?thesis by simp
    next
      case (Cons x a')
      with ab have "h = a' @ n @ b" by simp
      then have "py_in n h" using Cons.IH by blast
      then show ?thesis by simp
    qed
  qed
qed

lemma py_in_lower: "py_in n h \<Longrightarrow> py_in (lower n) (lower h)"
  unfolding py_in_iff lower_def by (metis map_append)

lemma rep_result:
  "st' \<in> set (rep p k lo hi pv s cp) \<Longrightarrow>
     caps st' = cp \<and> (\<exists>t. s = t @ rest st' \<and> list_all p t \<and> lo \<le> k + length t)"
proof (induction s arbitrary: k pv)
  case Nil
  then show ?case by (auto split: if_splits)
next
  case (Cons c s)
  from Cons.prems consider
      (more) "p c" "st' \<in> set (rep p (Suc k) lo hi (Some c) s cp)"
    | (stop) "lo \<le> k" "st' = \<lparr>prev = pv, rest = c # s, caps = cp\<rparr>"
    by (auto split: if_splits)
  then show ?case
  proof cases
    case more
    from Cons.IH[OF more(2)] obtain t where
      t: "caps st' = cp" "s = t @ rest st'" "list_all p t" "lo \<le> Suc k + length t" by auto
    then have "c # s = (c # t) @ rest st'" "list_all p (c # t)" "lo \<le> k + length (c # t)"
      using more(1) by auto
    with t(1) show ?thesis by blast
  next
    case stop
    then show ?thesis by auto
  qed
qed

lemma lit_result:
  "lit ic w pv s = Some (pv', s') \<Longrightarrow> \<exists>t. s = t @ s' \<and> length t = length w \<and> (\<not> ic \<longrightarrow> t = w)"
proof (induction ic w pv s rule: lit.induct)
  case (1 ic pv s)
  then show ?case by auto
next
  case (2 ic a as pv)
  then show ?case by auto
next
  case (3 ic a as pv c s)
  then have m: "in_cset ic (Lit a) c" and r: "lit ic as (Some c) s = Some (pv', s')"
    by (auto split: if_splits)
  from "3.IH"[OF m r] obtain t where t: "s = t @ s'" "length t = length as" "\<not> ic \<longrightarrow> t = as"
    by auto
  have "c # s = (c # t) @ s'" "length (c # t) = length (a # as)" using t by auto
  moreover have "\<not> ic \<longrightarrow> c # t = a # as" using t m by auto
  ultimately show ?case by blast
qed

lemma rmatch_consumes:
  "st' \<in> set (rmatch ic r st) \<Longrightarrow>
     \<exists>t. rest st = t @ rest st' \<and> (only_digits ic r \<longrightarrow> list_all is_digit t)
          \<and> (nonempty r \<longrightarrow> t \<noteq> [])"
proof (induction r arbitrary: st st')
  case (Ch cs)
  show ?case
  proof (cases "rest st")
    case Nil
    then show ?thesis using Ch by simp
  next
    case (Cons c s)
    with Ch have c: "in_cset ic cs c" "rest st' = s" by (auto split: if_splits)
    then have "rest st = [c] @ rest st'" using Cons by simp
    moreover have "only_digits ic (Ch cs) \<longrightarrow> list_all is_digit [c]" using c(1) by auto
    moreover have "[c] \<noteq> []" by simp
    ultimately show ?thesis by blast
  qed
next
  case (Rep cs lo hi)
  then obtain t where "rest st = t @ rest st'" "list_all (in_cset ic cs) t" "lo \<le> length t"
    using rep_result[of st' "in_cset ic cs" 0 lo hi "prev st" "rest st" "caps st"] by auto
  moreover have "only_digits ic (Rep cs lo hi) \<longrightarrow> list_all is_digit t"
    using calculation(2) by (auto simp: list_all_iff)
  moreover have "nonempty (Rep cs lo hi) \<longrightarrow> t \<noteq> []" using calculation(3) by auto
  ultimately show ?case by blast
next
  case (Str w)
  show ?case
  proof (cases "lit ic w (prev st) (rest st)")
    case None
    then show ?thesis using Str by simp
  next
    case (Some ps)
    obtain pv s where ps: "ps = (pv, s)" by (cases ps)
    have r: "rest st' = s" using Str Some ps by simp
    from lit_result[OF Some[unfolded ps]] obtain t where
      t: "rest st = t @ s" "length t = length w" "\<not> ic \<longrightarrow> t = w" by auto
    have "rest st = t @ rest st'" using t r by simp
    moreover have "only_digits ic (Str w) \<longrightarrow> list_all is_digit t" using t by auto
    moreover have "nonempty (Str w) \<longrightarrow> t \<noteq> []" using t by auto
    ultimately show ?thesis by blast
  qed
next
  case (Opt r)
  then consider "st' \<in> set (rmatch ic r st)" | "st' = st" by auto
  then show ?case
  proof cases
    case 1
    from Opt.IH[OF 1] show ?thesis by auto
  next
    case 2
    then show ?thesis by auto
  qed
next
  case (Alt r1 r2)
  then consider "st' \<in> set (rmatch ic r1 st)" | "st' \<in> set (rmatch ic r2 st)" by auto
  then show ?case
  proof cases
    case 1
    from Alt.IH(1)[OF 1] show ?thesis by auto
  next
    case 2
    from Alt.IH(2)[OF 2] show ?thesis by auto
  qed
next
  case (Cat r1 r2)
  then obtain sm where sm: "sm \<in> set (rmatch ic r1 st)" "st' \<in> set (rmatch ic r2 sm)" by auto
  from Cat.IH(1)[OF sm(1)] obtain t1 where t1: "rest st = t1 @ rest sm"
    "only_digits ic r1 \<longrightarrow> list_all is_digit t1" "nonempty r1 \<longrightarrow> t1 \<noteq> []" by auto
  from Cat.IH(2)[OF sm(2)] obtain t2 where t2: "rest sm = t2 @ rest st'"
    "only_digits ic r2 \<longrightarrow> list_all is_digit t2" "nonempty r2 \<longrightarrow> t2 \<noteq> []" by auto
  have "rest st = (t1 @ t2) @ rest st'" using t1 t2 by simp
  moreover have "only_digits ic (Cat r1 r2) \<longrightarrow> list_all is_digit (t1 @ t2)" using t1 t2 by auto
  moreover have "nonempty (Cat r1 r2) \<longrightarrow> t1 @ t2 \<noteq> []" using t1 t2 by auto
  ultimately show ?case by blast
next
  case (Grp i r)
  then obtain sm where sm: "sm \<in> set (rmatch ic r st)" "rest st' = rest sm" by auto
  from Grp.IH[OF sm(1)] show ?case using sm(2) by auto
next
  case Bnd
  then show ?case by (auto split: if_splits)
qed

lemma rmatch_digit_caps:
  "st' \<in> set (rmatch ic r st) \<Longrightarrow> digit_groups ic r \<Longrightarrow> digit_caps (caps st)
     \<Longrightarrow> digit_caps (caps st')"
proof (induction r arbitrary: st st')
  case (Ch cs)
  then show ?case by (auto split: list.splits if_splits)
next
  case (Rep cs lo hi)
  then show ?case using rep_result[of st' "in_cset ic cs" 0 lo hi "prev st" "rest st" "caps st"] by auto
next
  case (Str w)
  then show ?case by (auto split: option.splits)
next
  case (Opt r)
  then show ?case by auto
next
  case (Alt r1 r2)
  then show ?case by auto
next
  case (Cat r1 r2)
  then obtain sm where sm: "sm \<in> set (rmatch ic r1 st)" "st' \<in> set (rmatch ic r2 sm)" by auto
  have "digit_caps (caps sm)" using Cat.IH(1)[OF sm(1)] Cat.prems by auto
  then show ?case using Cat.IH(2)[OF sm(2)] Cat.prems by auto
next
  case (Grp i r)
  then obtain sm where sm: "sm \<in> set (rmatch ic r st)"
    "caps st' = (i, take (length (rest st) - length (rest sm)) (rest st)) # caps sm" by auto
  from rmatch_consumes[OF sm(1)] obtain t where t: "rest st = t @ rest sm"
    "only_digits ic r \<longrightarrow> list_all is_digit t" "nonempty r \<longrightarrow> t \<noteq> []" by auto
  have "take (length (rest st) - length (rest sm)) (rest st) = t" using t(1) by simp
  moreover have "digit_text t" using t Grp.prems by (auto simp: digit_text_def)
  moreover have "digit_caps (caps sm)" using Grp.IH[OF sm(1)] Grp.prems by auto
  ultimately show ?case using sm(2) by (simp add: digit_caps_def)
next
  case Bnd
  then show ?case by (auto split: if_splits)
qed

lemma rmatch_always_sets:
  "st' \<in> set (rmatch ic r st) \<Longrightarrow> always_sets i r \<or> i \<in> fst ` set (caps st)
     \<Longrightarrow> i \<in> fst ` set (caps st')"
proof (induction r arbitrary: st st')
  case (Ch cs)
  then show ?case by (auto split: list.splits if_splits)
next
  case (Rep cs lo hi)
  then show ?case using rep_result[of st' "in_cset ic cs" 0 lo hi "prev st" "rest st" "caps st"] by auto
next
  case (Str w)
  then show ?case by (auto split: option.splits)
next
  case (Opt r)
  then have i: "i \<in> fst ` set (caps st)" by simp
  from Opt.prems(1) consider "st' \<in> set (rmatch ic r st)" | "st' = st" by auto
  then show ?case
  proof cases
    case 1
    then show ?thesis using Opt.IH i by blast
  next
    case 2
    then show ?thesis using i by simp
  qed
next
  case (Alt r1 r2)
  from Alt.prems(1) consider "st' \<in> set (rmatch ic r1 st)" | "st' \<in> set (rmatch ic r2 st)"
    by auto
  then show ?case
  proof cases
    case 1
    have "always_sets i r1 \<or> i \<in> fst ` set (caps st)" using Alt.prems(2) by auto
    then show ?thesis using Alt.IH(1)[OF 1] by blast
  next
    case 2
    have "always_sets i r2 \<or> i \<in> fst ` set (caps st)" using Alt.prems(2) by auto
    then show ?thesis using Alt.IH(2)[OF 2] by blast
  qed
next
  case (Cat r1 r2)
  then obtain sm where sm: "sm \<in> set (rmatch ic r1 st)" "st' \<in> set (rmatch ic r2 sm)" by auto
  show ?case
  proof (cases "always_sets i r1 \<or> i \<in> fst ` set (caps st)")
    case True
    then have "i \<in> fst ` set (caps sm)" using Cat.IH(1)[OF sm(1)] by blast
    then show ?thesis using Cat.IH(2)[OF sm(2)] by blast
  next
    case False
    then have "always_sets i r2" using Cat.prems by auto
    then show ?thesis using Cat.IH(2)[OF sm(2)] by blast
  qed
next
  case (Grp j r)
  then obtain sm where sm: "sm \<in> set (rmatch ic r st)"
    "caps st' = (j, take (length (rest st) - length (rest sm)) (rest st)) # caps sm" by auto
  show ?case
  proof (cases "i = j")
    case True
    then show ?thesis using sm(2) by simp
  next
    case False
    then have "always_sets i r \<or> i \<in> fst ` set (caps st)" using Grp.prems by auto
    then have "i \<in> fst ` set (caps sm)" using Grp.IH[OF sm(1)] by blast
    then show ?thesis using sm(2) by simp
  qed
next
  case Bnd
  then show ?case by (auto split: if_splits)
qed

lemma search_from_Some:
  "search_from ic r pv s i = Some m \<Longrightarrow>
     \<exists>st0 st'. caps st0 = [] \<and> st' \<in> set (rmatch ic r st0) \<and> m_caps m = caps st'"
proof (induction s arbitrary: pv i)
  case Nil
  then obtain st sts where "rmatch ic r \<lparr>prev = pv, rest = [], caps = []\<rparr> = st # sts" "m_caps m = caps st"
    by (auto split: list.splits)
  then have "st \<in> set (rmatch ic r \<lparr>prev = pv, rest = [], caps = []\<rparr>)" by simp
  then show ?case using \<open>m_caps m = caps st\<close> by (metis mstate.select_convs(3))
next
  case (Cons c s)
  show ?case
  proof (cases "rmatch ic r \<lparr>prev = pv, rest = c # s, caps = []\<rparr>")
    case Nil
    then have "search_from ic r (Some c) s (Suc i) = Some m" using Cons.prems by simp
    then show ?thesis using Cons.IH by blast
  next
    case (Cons st sts)
    then have "m_caps m = caps st" using Cons.prems by auto
    moreover have "st \<in> set (rmatch ic r \<lparr>prev = pv, rest = c # s, caps = []\<rparr>)" using Cons by simp
    ultimately show ?thesis by (metis mstate.select_convs(3))
  qed
qed

lemma group_digit_text:
  assumes "re_search ic r s = Some m" "digit_groups ic r" "always_sets i r"
  shows "\<exists>d. group m i = Some d \<and> digit_text d"
proof -
  from assms(1) obtain st0 st' where st: "caps st0 = []" "st' \<in> set (rmatch ic r st0)"
    "m_caps m = caps st'" unfolding re_search_def using search_from_Some by blast
  have dc: "digit_caps (caps st')" using rmatch_digit_caps[OF st(2) assms(2)] st(1)
    by (simp add: digit_caps_def)
  have "i \<in> fst ` set (caps st')" using rmatch_always_sets[OF st(2)] assms(3) by blast
  then obtain d where d: "map_of (caps st') i = Some d"
    by (metis domD dom_map_of_conv_image_fst)
  then have "(i, d) \<in> set (caps st')" by (rule map_of_SomeD)
  then have "digit_text d" using dc by (auto simp: digit_caps_def list_all_iff)
  then show ?thesis using d st(3) by (simp add: group_def)
qed

section \<open>The conversions of captured digits\<close>

lemma digit_not_space: "is_digit c \<Longrightarrow> \<not> is_int_space c"
  by (auto simp: is_digit_def is_int_space_def digits_def)

lemma digit_not_sign: "is_digit c \<Longrightarrow> c \<noteq> CHR ''-'' \<and> c \<noteq> CHR ''+''"
  by (auto simp: is_digit_def digits_def)

lemma int_body_ok_digits: "list_all is_digit s \<Longrightarrow> int_body_ok b s = (b \<or> s \<noteq> [])"
  by (induction s arbitrary: b) auto

lemma int_strip_digit_text:
  "digit_text d \<Longrightarrow> rev (dropWhile is_int_space (rev (dropWhile is_int_space d))) = d"
proof -
  assume d: "digit_text d"
  then obtain c s where cs: "d = c # s" "is_digit c" by (cases d) (auto simp: digit_text_def)
  then have 1: "dropWhile is_int_space d = d" by (simp add: digit_not_space)
  from d have "rev d \<noteq> []" "list_all is_digit (rev d)" by (auto simp: digit_text_def list_all_iff)
  then obtain c' s' where "rev d = c' # s'" "is_digit c'" by (cases "rev d") auto
  then have "dropWhile is_int_space (rev d) = rev d" by (simp add: digit_not_space)
  with 1 show ?thesis by simp
qed

lemma digit_val_nonneg: "0 \<le> digit_val c"
  by (simp add: digit_val_def digits_def)

lemma foldl_digits_nonneg: "0 \<le> a \<Longrightarrow> 0 \<le> foldl (\<lambda>a c. 10 * a + digit_val c) a s"
proof (induction s arbitrary: a)
  case Nil
  then show ?case by simp
next
  case (Cons c s)
  have "0 \<le> 10 * a + digit_val c" using Cons.prems digit_val_nonneg[of c] by simp
  then show ?case using Cons.IH by simp
qed

lemma digits_val_nonneg: "0 \<le> digits_val s"
  by (simp add: digits_val_def foldl_digits_nonneg)

lemma py_int_digit_text: "digit_text d \<Longrightarrow> py_int d = Inr (digits_val d)"
proof -
  assume d: "digit_text d"
  then obtain c s where cs: "d = c # s" "is_digit c" by (cases d) (auto simp: digit_text_def)
  have h: "hd d \<noteq> CHR ''-''" "hd d \<noteq> CHR ''+''" using cs digit_not_sign by auto
  have f: "filter is_digit d = d" using d by (auto simp: digit_text_def list_all_iff)
  have b: "int_body_ok False d" using d by (simp add: digit_text_def int_body_ok_digits)
  show ?thesis using h f b by (simp add: py_int_def int_strip_digit_text[OF d] Let_def)
qed

text \<open>
  \<^verbatim>\<open>int(m.group(i))\<close> does not raise, and is not negative, when group \<open>i\<close> is a group of
  digits that takes part in every match.
\<close>

lemma int_of_group:
  assumes "re_search ic r s = Some m" "digit_groups ic r" "always_sets i r"
  shows "\<exists>v. py_int_opt (group m i) = Inr v \<and> 0 \<le> v"
proof -
  from group_digit_text[OF assms] obtain d where "group m i = Some d" "digit_text d" by auto
  then show ?thesis by (simp add: py_int_opt_def py_int_digit_text digits_val_nonneg)
qed

section \<open>The query parser\<close>





lemma first_in_nil: "first_in [] ql = None" "all_in [] ql = []"
  by (simp_all add: first_in_def all_in_def)





text \<open>
  Claim C5. The query \<^verbatim>\<open>GMC Sierra Denali under $50000\<close> gives makes \<^verbatim>\<open>["GMC"]\<close>, models
  \<^verbatim>\<open>["Sierra"]\<close>, trims \<^verbatim>\<open>["Denali"]\<close>, \<^verbatim>\<open>maxPrice = 50000\<close> and no year, whatever the
  catalog; only the catalog-driven fields depend on the catalog.
\<close>

theorem scenario_gmc_sierra_denali:
  "parse_with_patterns ''GMC Sierra Denali under $50000'' gf =
     Inr \<lparr>query = ''GMC Sierra Denali under $50000'',
          structured = \<lparr>makes = [''GMC''], models = [''Sierra''], trims = [''Denali''],
            year = None, yearMin = None, yearMax = None, minPrice = None, maxPrice = Some 50000,
            drivetrain = first_in (drivetrains gf) ''gmc sierra denali under $50000'',
            fuelType = first_in (fuel_types gf) ''gmc sierra denali under $50000'',
            bodyType = first_in (body_types gf) ''gmc sierra denali under $50000'',
            transmission = None, doors = None, cylinders = None,
            exteriorColor = first_in (exterior_colors gf) ''gmc sierra denali under $50000'',
            interiorColor = None,
            features = all_in (feature_names gf) ''gmc sierra denali under $50000'',
            location = no_location\<rparr>\<rparr>"
proof -
  have l: "lower ''GMC Sierra Denali under $50000'' = ''gmc sierra denali under $50000''"
    by code_simp
  have "extract_price price_patterns ''gmc sierra denali under $50000'' = Inr (None, Some 50000)"
    by code_simp
  moreover have "extract_year ''GMC Sierra Denali under $50000'' = Inr None" by code_simp
  moreover have "extract_makes ''gmc sierra denali under $50000'' = [''GMC'']" by code_simp
  moreover have "extract_models ''gmc sierra denali under $50000'' = [''Sierra'']" by code_simp
  moreover have "extract_trims ''gmc sierra denali under $50000'' = [''Denali'']" by code_simp
  ultimately show ?thesis
    unfolding parse_with_patterns_def l by (simp add: Let_def del: extract_price.simps)
qed

text \<open>The scenario with the empty catalog.\<close>

theorem scenario_gmc_sierra_denali_witness:
  "parse_with_patterns ''GMC Sierra Denali under $50000'' no_filters =
     Inr \<lparr>query = ''GMC Sierra Denali under $50000'',
          structured = found_nothing\<lparr>makes := [''GMC''], models := [''Sierra''],
            trims := [''Denali''], maxPrice := Some 50000\<rparr>\<rparr>"
  using scenario_gmc_sierra_denali[of no_filters]
  by (simp add: no_filters_def found_nothing_def first_in_nil)

subsection \<open>The makes of a query\<close>










section \<open>The AutoTrader scraper over CDP\<close>

subsection \<open>Deduplication\<close>

lemma find_append:
  "find P (xs @ ys) = (case find P xs of None \<Rightarrow> find P ys | Some x \<Rightarrow> Some x)"
  by (induction xs) auto

lemma find_Some_ids: "v \<in> ids_of xs \<Longrightarrow> \<exists>y. find (\<lambda>x. vehicle_id x = Some v) xs = Some y"
  by (cases "find (\<lambda>x. vehicle_id x = Some v) xs") (auto simp: find_None_iff ids_of_def)

lemma ids_of_snoc:
  "ids_of (xs @ [x]) = (case vehicle_id x of None \<Rightarrow> ids_of xs | Some v \<Rightarrow> insert v (ids_of xs))"
  by (auto simp: ids_of_def split: option.splits)

text \<open>One round of the loop keeps the invariant.\<close>

lemma dedup_inv_step:
  assumes "dedup_inv xs d"
  shows "dedup_inv (xs @ [x]) (dedup_step d x)"
proof (cases "vehicle_id x")
  case None
  then have s: "dedup_step d x = d" by (simp add: dedup_step_def)
  have "\<forall>v. find (\<lambda>y. vehicle_id y = Some v) (xs @ [x]) = find (\<lambda>y. vehicle_id y = Some v) xs"
    using None by (auto simp: find_append split: option.splits)
  moreover have "subseq (unique_listings d) (xs @ [x])"
    using assms by (simp add: dedup_inv_def subseq_rev_drop_many)
  ultimately show ?thesis using assms None unfolding s by (simp add: dedup_inv_def ids_of_snoc)
next
  case (Some v)
  show ?thesis
  proof (cases "v \<in> seen_vehicle_ids d")
    case True
    then have s: "dedup_step d x = d\<lparr>skipped_count := Suc (skipped_count d)\<rparr>"
      using Some by (simp add: dedup_step_def)
    have vin: "v \<in> ids_of xs" using True assms by (simp add: dedup_inv_def)
    have "find (\<lambda>y. vehicle_id y = Some w) (xs @ [x]) = find (\<lambda>y. vehicle_id y = Some w) xs" for w
    proof (cases "w = v")
      case True
      then show ?thesis using find_Some_ids[OF vin] by (auto simp: find_append)
    next
      case False
      then show ?thesis using Some by (auto simp: find_append split: option.splits)
    qed
    moreover have "subseq (unique_listings d) (xs @ [x])"
      using assms by (simp add: dedup_inv_def subseq_rev_drop_many)
    moreover have "insert v (ids_of xs) = ids_of xs" using vin by auto
    ultimately show ?thesis using assms Some unfolding s by (simp add: dedup_inv_def ids_of_snoc)
  next
    case False
    then have s: "dedup_step d x = d\<lparr>seen_vehicle_ids := insert v (seen_vehicle_ids d),
                 unique_listings := unique_listings d @ [x]\<rparr>"
      using Some by (simp add: dedup_step_def)
    have vnot: "v \<notin> ids_of xs" using False assms by (simp add: dedup_inv_def)
    have sub: "subseq (unique_listings d) xs" using assms by (simp add: dedup_inv_def)
    then have "set (unique_listings d) \<subseteq> set xs" by (auto elim: list_emb_set)
    then have fresh: "Some v \<notin> vehicle_id ` set (unique_listings d)"
      using vnot by (auto simp: ids_of_def)
    have "find (\<lambda>y. vehicle_id y = Some w) (unique_listings d @ [x])
          = find (\<lambda>y. vehicle_id y = Some w) (xs @ [x])" for w
      using assms by (simp add: find_append dedup_inv_def)
    moreover have "subseq (unique_listings d @ [x]) (xs @ [x])"
      using sub by (simp add: subseq_append)
    ultimately show ?thesis using assms Some fresh unfolding s
      by (simp add: dedup_inv_def ids_of_snoc)
  qed
qed

lemma dedup_inv_fold:
  "dedup_inv xs
     (foldl dedup_step \<lparr>seen_vehicle_ids = {}, unique_listings = [], skipped_count = 0\<rparr> xs)"
proof (induction xs rule: rev_induct)
  case Nil
  then show ?case by (simp add: dedup_inv_def ids_of_def)
next
  case (snoc x xs)
  then show ?case by (simp add: dedup_inv_step)
qed

lemma dedupe_distinct: "distinct (map vehicle_id (dedupe xs))"
  using dedup_inv_fold[of xs] by (simp add: dedup_inv_def dedupe_def)

lemma dedupe_subseq: "subseq (dedupe xs) xs"
  using dedup_inv_fold[of xs] by (simp add: dedup_inv_def dedupe_def)

lemma dedupe_has_id: "None \<notin> vehicle_id ` set (dedupe xs)"
  using dedup_inv_fold[of xs] by (simp add: dedup_inv_def dedupe_def)

lemma dedupe_find:
  "find (\<lambda>y. vehicle_id y = Some v) (dedupe xs) = find (\<lambda>x. vehicle_id x = Some v) xs"
  using dedup_inv_fold[of xs] by (simp add: dedup_inv_def dedupe_def)

lemma dedupe_four_links: "dedupe [link_a, link_b, link_c, link_d] = [link_a, link_b]"
  by code_simp

lemma four_links_ids:
  "vehicle_id link_a = Some ''111''" "vehicle_id link_b = Some ''222''"
  "vehicle_id link_c = Some ''111''" "vehicle_id link_d = None"
  by code_simp+

text \<open>
  Claim C8. For every sequence of listing links, no two links that survive deduplication
  share a vehicle id; for every vehicle id, the survivor with that id is the first link of
  the input with that id (and there is one exactly when the input has one); the survivors
  keep the order of the input, and there are no more of them than links in the input.
\<close>

theorem dedupe_first_seen:
  "distinct (map vehicle_id (dedupe xs))
   \<and> (\<forall>v. find (\<lambda>y. vehicle_id y = Some v) (dedupe xs) = find (\<lambda>x. vehicle_id x = Some v) xs)
   \<and> subseq (dedupe xs) xs
   \<and> length (dedupe xs) \<le> length xs"
  using dedupe_distinct[of xs] dedupe_find[of _ xs] dedupe_subseq[of xs]
  by (simp add: list_emb_length)

text \<open>
  The theorem at four links, two of them for vehicle 111: the first of the two survives,
  the later one does not.
\<close>

theorem dedupe_first_seen_witness:
  "dedupe [link_a, link_b, link_c, link_d] = [link_a, link_b]
   \<and> vehicle_id link_a = vehicle_id link_c
   \<and> find (\<lambda>y. vehicle_id y = Some ''111'') [link_a, link_b] = Some link_a
   \<and> distinct (map vehicle_id [link_a, link_b])
   \<and> length [link_a, link_b] \<le> length [link_a, link_b, link_c, link_d]"
proof -
  have "find (\<lambda>y. vehicle_id y = Some ''111'') (dedupe [link_a, link_b, link_c, link_d])
        = Some link_a"
    using dedupe_first_seen[of "[link_a, link_b, link_c, link_d]"] four_links_ids(1) by simp
  moreover have "distinct (map vehicle_id (dedupe [link_a, link_b, link_c, link_d]))"
    using dedupe_first_seen[of "[link_a, link_b, link_c, link_d]"] by simp
  ultimately show ?thesis using dedupe_four_links four_links_ids by simp
qed

text \<open>
  Claim C9, as the code has it. A candidate from whose URL no vehicle id can be derived
  never survives deduplication: the loop appends a link only inside the branch in which the
  id pattern matched, and there is no key made of title, price and mileage.
\<close>

theorem dedupe_drops_without_id: "vehicle_id x = None \<Longrightarrow> x \<notin> set (dedupe xs)"
  using dedupe_has_id[of xs] by force

text \<open>The theorem at the four links: \<open>link_d\<close> has no id and is gone.\<close>

theorem dedupe_drops_without_id_witness:
  "vehicle_id link_d = None \<and> link_d \<notin> set (dedupe [link_a, link_b, link_c, link_d])"
  using dedupe_drops_without_id[of link_d "[link_a, link_b, link_c, link_d]"] four_links_ids(4)
  by simp

text \<open>
  Claim C9 as stated fails: a candidate without a vehicle id, alone in the input and so the
  first with its title, is not retained.
\<close>

theorem no_id_candidate_counterexample: "vehicle_id link_d = None \<and> dedupe [link_d] = []"
  by code_simp

subsection \<open>Classification of the page\<close>

lemma bot_detected_verbatim:
  "list_ex (\<lambda>indicator. py_in indicator page_text) bot_detection_indicators
     \<Longrightarrow> bot_detected page_text"
  unfolding bot_detected_def list_ex_iff using py_in_lower by blast

lemma blocked_exit:
  "bot_detected page_text \<Longrightarrow> run_autotrader_cdp n (Rendered page_text ls) = BotDetected"
  by (simp add: run_autotrader_cdp_def)

lemma blocked_page_facts:
  "py_in ''Access to this page has been denied'' blocked_page"
  "no_results blocked_page"
  by code_simp+

lemma denied_in_list: "''Access to this page has been denied'' \<in> set bot_detection_indicators"
  by (simp add: bot_detection_indicators_def)

text \<open>
  Claim C3. The bot-defense indicators are checked before the no-results indicators, for
  every page text and whatever links the page has: a page text that contains one of the
  bot-defense phrases, in any letter case or verbatim, leaves the scraper at the
  bot-detection \<^verbatim>\<open>return\<close> with the empty list, also when it contains a no-results phrase.
\<close>

theorem bot_defense_checked_first:
  assumes "bot_detected page_text
           \<or> list_ex (\<lambda>indicator. py_in indicator page_text) bot_detection_indicators"
  shows "run_autotrader_cdp max_results (Rendered page_text listings) = BotDetected
         \<and> scrape_autotrader_cdp max_results (Rendered page_text listings) = Some []"
proof -
  have "bot_detected page_text" using assms bot_detected_verbatim by blast
  then show ?thesis by (simp add: blocked_exit scrape_autotrader_cdp_def)
qed

text \<open>
  The theorem at a page that says \<^verbatim>\<open>Access to this page has been denied\<close> and also
  \<^verbatim>\<open>No results found\<close>, with one listing link on it.
\<close>

theorem bot_defense_checked_first_witness:
  "list_ex (\<lambda>indicator. py_in indicator blocked_page) bot_detection_indicators
   \<and> no_results blocked_page
   \<and> run_autotrader_cdp 10 (Rendered blocked_page [scenario4_link]) = BotDetected
   \<and> scrape_autotrader_cdp 10 (Rendered blocked_page [scenario4_link]) = Some []"
proof -
  have h: "list_ex (\<lambda>indicator. py_in indicator blocked_page) bot_detection_indicators"
    unfolding list_ex_iff using denied_in_list blocked_page_facts(1) by blast
  then show ?thesis
    using bot_defense_checked_first[of blocked_page 10 "[scenario4_link]"] blocked_page_facts(2)
    by simp
qed

subsection \<open>Extraction\<close>

lemma mileage_pattern_ok: "digit_groups True mileage_pattern" "always_sets 1 mileage_pattern"
  by (simp_all add: mileage_pattern_def digits1_def spaces0_def)

lemma extract_mileage_text_ok: "\<exists>mi. extract_mileage_text t = Inr mi \<and> 0 \<le> mi"
proof (cases "re_search True mileage_pattern t")
  case None
  then show ?thesis by (simp add: extract_mileage_text_def)
next
  case (Some m)
  from int_of_group[OF Some mileage_pattern_ok] show ?thesis
    using Some by (simp add: extract_mileage_text_def)
qed

text \<open>The body of the extraction loop never raises.\<close>

lemma extract_listing_returns: "\<exists>r. extract_listing l = Inr r"
  using extract_mileage_text_ok[of "resolve_text (ancestors l)"]
  by (auto simp: extract_listing_def Let_def)

lemma extract_listing_positive:
  "extract_listing l = Inr (Some x) \<Longrightarrow> 0 < price x \<and> 0 \<le> mileage x"
  using extract_mileage_text_ok[of "resolve_text (ancestors l)"]
  by (auto simp: extract_listing_def Let_def split: if_splits)

lemma extract_all_positive: "x \<in> set (extract_all ls) \<Longrightarrow> 0 < price x \<and> 0 \<le> mileage x"
  using extract_listing_positive
  by (fastforce simp: extract_all_def split: sum.splits option.splits)

text \<open>
  In this scraper the guard \<^verbatim>\<open>if price > 0\<close> holds for everything that is returned: every
  listing has a positive price and a mileage that is not negative.
\<close>

lemma scrape_autotrader_cdp_positive:
  "scrape_autotrader_cdp n w = Some ls \<Longrightarrow> x \<in> set ls \<Longrightarrow> 0 < price x \<and> 0 \<le> mileage x"
  using extract_all_positive
  by (auto simp: scrape_autotrader_cdp_def run_autotrader_cdp_def
      split: cdp_world.splits if_splits)

lemma price_candidates_range:
  "(p, i) \<in> set (price_candidates r t) \<Longrightarrow> 5000 \<le> p \<and> p \<le> 500000"
  by (auto simp: price_candidates_def Let_def split: if_splits)

text \<open>Without a dollar price, the heuristic gives 0 or a number from 5000 to 500000.\<close>

lemma heuristic_price_range:
  assumes "re_search False dollar_pattern t = None"
  shows "extract_price_text t = 0 \<or> (5000 \<le> extract_price_text t \<and> extract_price_text t \<le> 500000)"
proof -
  define c1 where "c1 = price_candidates comma_pattern t"
  define cs where "cs = (if c1 = [] then price_candidates plain_pattern t else c1)"
  have e: "extract_price_text t = (if cs \<noteq> [] then fst (last cs) else 0)"
    using assms by (simp add: extract_price_text_def Let_def cs_def c1_def)
  show ?thesis
  proof (cases "cs = []")
    case True
    then show ?thesis using e by simp
  next
    case False
    then have "last cs \<in> set cs" by simp
    then have "(fst (last cs), snd (last cs)) \<in> set (price_candidates comma_pattern t)
               \<or> (fst (last cs), snd (last cs)) \<in> set (price_candidates plain_pattern t)"
      by (auto simp: cs_def c1_def split: if_splits)
    then have "5000 \<le> fst (last cs) \<and> fst (last cs) \<le> 500000"
      using price_candidates_range by blast
    then show ?thesis using e False by simp
  qed
qed

text \<open>
  Claim C4: the code does something else. The card \<open>scenario4_text\<close> contains
  \<^verbatim>\<open>$103,615\<close> and \<^verbatim>\<open>60,000 mi\<close>. The price read from it is 103615, but the mileage
  pattern \<^verbatim>\<open>(\d+)\s*mi\b\<close> cannot read across the comma: it matches \<^verbatim>\<open>000 mi\<close> and the
  mileage of the listing is 0, not 60000. The pattern of the other scrapers reads 60000
  from the same card.
\<close>

theorem comma_mileage_reads_zero:
  "resolve_text (ancestors scenario4_link) = scenario4_text
   \<and> py_in ''$103,615'' scenario4_text \<and> py_in ''60,000 mi'' scenario4_text
   \<and> map_option m_text (re_search True mileage_pattern scenario4_text) = Some ''000 mi''
   \<and> extract_mileage_grouped scenario4_text = 60000
   \<and> extract_listing scenario4_link =
       Inr (Some \<lparr>name = ''Used 2021 GMC Sierra 3500 Denali Ultimate'', price = 103615,
          mileage = 0, image = [], retailer = ''AutoTrader'',
          url = ''https://www.autotrader.com/cars-for-sale/vehicle/765432109'',
          location_text = ''AutoTrader (Dublin Buick )''\<rparr>)"
  by code_simp

text \<open>
  Claim C6: the code does something else. The card \<open>six_digit_text\<close> has no dollar sign
  and one comma-grouped token, \<^verbatim>\<open>250,000\<close>, which lies between 5,000 and 500,000. The
  pattern \<^verbatim>\<open>(\d{1,2},\d{3})\<close> takes at most two digits before the comma: it matches
  \<^verbatim>\<open>50,000\<close> inside the token, and the listing is emitted with the price 50000.
\<close>

theorem six_digit_comma_token_truncated:
  "resolve_text (ancestors six_digit_link) = six_digit_text
   \<and> py_in ''250,000'' six_digit_text
   \<and> re_search False dollar_pattern six_digit_text = None
   \<and> map m_text (re_finditer False comma_pattern six_digit_text) = [''50,000'']
   \<and> extract_price_text six_digit_text = 50000
   \<and> extract_listing six_digit_link =
       Inr (Some \<lparr>name = ''2022 Lamborghini Urus Performante'', price = 50000, mileage = 850,
          image = [], retailer = ''AutoTrader'',
          url = ''https://www.autotrader.com/cars-for-sale/vehicle/700100200'',
          location_text = ''AutoTrader''\<rparr>)"
  by code_simp

section \<open>The TrueCar scraper\<close>

lemma graphql_reply_errors:
  "g_errors resp \<noteq> Absent \<Longrightarrow> graphql_reply (Replied status resp) = None"
  by (simp add: graphql_reply_def)

lemma graphql_errors_none:
  assumes "post_outcome w = Replied status resp" "g_errors resp \<noteq> Absent"
  shows "scrape_truecar_graphql sf n w = Inr None \<or> scrape_truecar_graphql sf n w = Inl TypeError"
  using assms
  by (auto simp: scrape_truecar_graphql_def Let_def and_then_def py_join_def graphql_reply_errors)

lemma graphql_errors_none_typed:
  assumes "post_outcome w = Replied status resp" "g_errors resp \<noteq> Absent"
    "list_all is_str (query_parts sf)"
  shows "scrape_truecar_graphql sf n w = Inr None"
  using assms
  by (auto simp: scrape_truecar_graphql_def Let_def and_then_def py_join_def graphql_reply_errors)

lemma fast_channel_gate:
  "FastChannel \<in> set (channels (scrape_truecar f n w)) \<Longrightarrow>
     \<exists>sf. f = Some sf \<and> truthy (fget sf ''make'') \<and> truthy (fget sf ''model'')"
  by (auto simp: scrape_truecar_def split: option.splits if_splits sum.splits)

lemma errors_fall_back:
  assumes "post_outcome w = Replied status resp" "g_errors resp \<noteq> Absent"
    "list_all is_str (query_parts sf)" "sf \<noteq> []"
  shows "outcome (scrape_truecar (Some sf) n w) = camoufox_outcome w"
  using graphql_errors_none_typed[OF assms(1,2,3), of n] assms(4)
  by (simp add: scrape_truecar_def)

text \<open>
  Claim C7. \<^verbatim>\<open>scrape_truecar\<close> calls the GraphQL channel only when the filters hold a
  truthy make and a truthy model. When the reply to the POST has an \<^verbatim>\<open>errors\<close> member,
  the \<^verbatim>\<open>try\<close> block yields \<^verbatim>\<open>None\<close> and the GraphQL channel returns no listing (it
  returns \<^verbatim>\<open>None\<close>, or \<^verbatim>\<open>join\<close> has raised \<^verbatim>\<open>TypeError\<close> on a part that is not a
  string); with filters that are not empty and whose query parts are strings,
  \<^verbatim>\<open>scrape_truecar\<close> then yields exactly what the browser channel yields.
\<close>

theorem fast_channel_errors_fall_back:
  "(FastChannel \<in> set (channels (scrape_truecar f n w)) \<longrightarrow>
      (\<exists>sf. f = Some sf \<and> truthy (fget sf ''make'') \<and> truthy (fget sf ''model'')))
   \<and> (post_outcome w = Replied status resp \<and> g_errors resp \<noteq> Absent \<longrightarrow>
        graphql_reply (post_outcome w) = None
        \<and> (scrape_truecar_graphql sf n w = Inr None
            \<or> scrape_truecar_graphql sf n w = Inl TypeError))
   \<and> (post_outcome w = Replied status resp \<and> g_errors resp \<noteq> Absent
        \<and> list_all is_str (query_parts sf) \<and> sf \<noteq> [] \<longrightarrow>
        outcome (scrape_truecar (Some sf) n w) = camoufox_outcome w)"
  using fast_channel_gate[of f n w] graphql_errors_none[of w status resp sf n]
    errors_fall_back[of w status resp sf n] graphql_reply_errors[of resp status]
  by auto

lemma errors_world_run:
  "scrape_truecar (Some sierra_filters) 10 errors_world
     = \<lparr>channels = [FastChannel, BrowserChannel], outcome = Inr [browser_listing]\<rparr>"
  by code_simp

lemma sierra_filters_facts:
  "list_all is_str (query_parts sierra_filters)" "sierra_filters \<noteq> []"
  "truthy (fget sierra_filters ''make'')" "truthy (fget sierra_filters ''model'')"
  by code_simp+

text \<open>
  The theorem at filters with make GMC and model Sierra and a reply with status 200 that
  has an \<^verbatim>\<open>errors\<close> member next to a well-formed edge: the fast channel was called and
  returned \<^verbatim>\<open>None\<close>, and the result is the browser channel's.
\<close>

theorem fast_channel_errors_fall_back_witness:
  "FastChannel \<in> set (channels (scrape_truecar (Some sierra_filters) 10 errors_world))
   \<and> truthy (fget sierra_filters ''make'') \<and> truthy (fget sierra_filters ''model'')
   \<and> post_outcome errors_world
       = Replied 200 (sierra_reply (Val [''Internal server error'']) (Val 45000))
   \<and> g_errors (sierra_reply (Val [''Internal server error'']) (Val 45000)) \<noteq> Absent
   \<and> list_all is_str (query_parts sierra_filters) \<and> sierra_filters \<noteq> []
   \<and> scrape_truecar_graphql sierra_filters 10 errors_world = Inr None
   \<and> outcome (scrape_truecar (Some sierra_filters) 10 errors_world)
       = camoufox_outcome errors_world"
proof -
  have a: "post_outcome errors_world
           = Replied 200 (sierra_reply (Val [''Internal server error'']) (Val 45000))"
    by (simp add: errors_world_def)
  have b: "g_errors (sierra_reply (Val [''Internal server error'']) (Val 45000)) \<noteq> Absent"
    by (simp add: sierra_reply_def)
  have c: "scrape_truecar_graphql sierra_filters 10 errors_world \<noteq> Inl TypeError"
    by code_simp
  show ?thesis
    using fast_channel_errors_fall_back[of "Some sierra_filters" 10 errors_world 200
        "sierra_reply (Val [''Internal server error'']) (Val 45000)" sierra_filters]
      a b c sierra_filters_facts errors_world_run
    by simp
qed

text \<open>
  Claim C2: the code does something else in one scraper. The GraphQL channel of the
  TrueCar scraper appends every edge of the reply without the guard \<^verbatim>\<open>if price > 0\<close>
  that the browser channels have. For a reply whose only edge has \<^verbatim>\<open>listPrice\<close>
  \<^verbatim>\<open>null\<close>, \<^verbatim>\<open>scrape_truecar\<close> returns a listing with the price 0.
\<close>

theorem graphql_emits_zero_price:
  "scrape_truecar (Some sierra_filters) 10 null_price_world
     = \<lparr>channels = [FastChannel], outcome = Inr [sierra_listing 0]\<rparr>
   \<and> price (sierra_listing 0) = 0"
  by code_simp

end
